theory Spec2Isabelle
  imports Complex_Main "HOL-Library.Word" "HOL-Library.Product_Lexorder" "HOL-Library.AList"
begin

unbundle bit_operations_syntax

section \<open>Data model of \<^verbatim>\<open>tools/score2bas.py\<close>\<close>

text \<open>
  Python integers are unbounded and are modelled as \<open>int\<close>; positions inside a byte
  buffer are \<open>nat\<close>. A \<^verbatim>\<open>bytes\<close> object is a list of 8-bit words, and reading one
  element gives its unsigned value. Exceptions are values of the type \<open>error\<close>.
  A Python \<^verbatim>\<open>dict\<close> is an association list in insertion order: a lookup is
  \<open>map_of\<close>, a store is \<open>AList.update\<close> (which overwrites in place, or appends a new key).
\<close>

datatype error =
    MidiParseError string
  | RuntimeError string
  | StructError
  | IndexError
  | ZeroDivisionError
  | NoNoteEvents

type_synonym byte = "8 word"

record TempoEvent =
  tick :: int
  bpm :: int

record TimeSignature =
  numerator :: int
  denominator :: int

text \<open>The field \<^verbatim>\<open>note\<close> of \<^verbatim>\<open>NoteEvent\<close> is called \<open>pitch\<close> here, and the field \<^verbatim>\<open>notes\<close>
  of \<^verbatim>\<open>MidiSong\<close> is called \<open>song_notes\<close>: both names are reserved words.\<close>

record NoteEvent =
  start_tick :: int
  end_tick :: int
  channel :: int
  pitch :: int
  velocity :: int

record MidiSong =
  ppqn :: int
  song_notes :: "NoteEvent list"
  tempos :: "TempoEvent list"
  time_signature :: TimeSignature
  end_tick :: int

text \<open>
  Floating point is idealised by the reals. \<open>py_truediv\<close> is the operator \<^verbatim>\<open>/\<close> on two
  integers, \<open>py_round\<close> is the one-argument \<^verbatim>\<open>round\<close> (ties go to the even neighbour).
\<close>

definition py_truediv :: "int \<Rightarrow> int \<Rightarrow> error + real" where
  "py_truediv a b = (if b = 0 then Inl ZeroDivisionError else Inr (real_of_int a / real_of_int b))"

definition py_round :: "real \<Rightarrow> int" where
  "py_round x =
     (let f = \<lfloor>x\<rfloor> in
      if x - real_of_int f < 1 / 2 then f
      else if 1 / 2 < x - real_of_int f then f + 1
      else if even f then f else f + 1)"

section \<open>Binary track decoder\<close>

subsection \<open>\<^verbatim>\<open>read_vlq\<close>\<close>

function read_vlq_loop :: "byte list \<Rightarrow> nat \<Rightarrow> int \<Rightarrow> error + (int \<times> nat)" where
  "read_vlq_loop data offset val =
     (if length data \<le> offset then Inl (MidiParseError ''Unexpected EOF while reading VLQ'')
      else
        let byte = uint (data ! offset);
            offset' = offset + 1;
            val' = push_bit 7 val OR (byte AND 0x7F)
        in if byte AND 0x80 = 0 then Inr (val', offset')
           else read_vlq_loop data offset' val')"
  by pat_completeness auto
termination
  by (relation "measure (\<lambda>(data, offset, val). length data - offset)") auto

declare read_vlq_loop.simps [simp del]

definition read_vlq :: "byte list \<Rightarrow> nat \<Rightarrow> error + (int \<times> nat)" where
  "read_vlq data offset = read_vlq_loop data offset 0"

subsection \<open>The event loop of one track\<close>

text \<open>
  The local variables of the \<^verbatim>\<open>while pos < len(track)\<close> loop of \<^verbatim>\<open>parse_midi\<close>, together
  with the three accumulators that outlive a track (\<^verbatim>\<open>notes\<close>, \<^verbatim>\<open>tempos\<close>,
  \<^verbatim>\<open>time_signature\<close>).
\<close>

record track_state =
  st_pos :: nat
  st_tick :: int
  st_running_status :: "int option"
  st_active :: "((int \<times> int) \<times> (int \<times> int) list) list"
  st_notes :: "NoteEvent list"
  st_tempos :: "TempoEvent list"
  st_time_signature :: TimeSignature

text \<open>Lines 156--178: a meta event. The flag of the result is False where the source
  leaves the loop (\<^verbatim>\<open>break\<close>) and True where it goes on (\<^verbatim>\<open>continue\<close>).\<close>

definition meta_event :: "byte list \<Rightarrow> track_state \<Rightarrow> error + (bool \<times> track_state)" where
  "meta_event track st =
     (if length track \<le> st_pos st then Inl (MidiParseError ''Malformed meta event'')
      else
        let meta_type = uint (track ! st_pos st) in
        (case read_vlq track (st_pos st + 1) of
          Inl e \<Rightarrow> Inl e
        | Inr (meta_len, pos2) \<Rightarrow>
            let meta_data = take (nat meta_len) (drop pos2 track);
                st' = st\<lparr>st_pos := pos2 + nat meta_len\<rparr>
            in
            if meta_type = 0x51 \<and> length meta_data = 3 then
              let us_per_quarter =
                    push_bit 16 (uint (meta_data ! 0)) OR push_bit 8 (uint (meta_data ! 1))
                      OR uint (meta_data ! 2)
              in
              if 0 < us_per_quarter then
                (case py_truediv 60000000 us_per_quarter of
                   Inl e \<Rightarrow> Inl e
                 | Inr q \<Rightarrow>
                     Inr (True, st'\<lparr>st_tempos := st_tempos st' @
                            [\<lparr>tick = st_tick st', bpm = max 1 (py_round q)\<rparr>]\<rparr>))
              else Inr (True, st')
            else if meta_type = 0x58 \<and> 2 \<le> length meta_data then
              let numerator = max 1 (uint (meta_data ! 0));
                  denominator = (2::int) ^ nat (uint (meta_data ! 1))
              in
              if 0 < denominator then
                Inr (True, st'\<lparr>st_time_signature :=
                       \<lparr>numerator = numerator, denominator = denominator\<rparr>\<rparr>)
              else Inr (True, st')
            else if meta_type = 0x2F then Inr (False, st')
            else Inr (True, st')))"

text \<open>Lines 180--183: a system-exclusive event is skipped.\<close>

definition sysex_event :: "byte list \<Rightarrow> track_state \<Rightarrow> error + (bool \<times> track_state)" where
  "sysex_event track st =
     (case read_vlq track (st_pos st) of
        Inl e \<Rightarrow> Inl e
      | Inr (sysex_len, pos2) \<Rightarrow> Inr (True, st\<lparr>st_pos := pos2 + nat sysex_len\<rparr>))"

text \<open>Lines 200--216: note-on pushes on the stack of its key (a \<^verbatim>\<open>defaultdict(list)\<close>:
  a missing key reads as the empty list and is created by the access), note-off pops.\<close>

definition note_event :: "int \<Rightarrow> int \<Rightarrow> int \<Rightarrow> int \<Rightarrow> track_state \<Rightarrow> track_state" where
  "note_event chan event_type data1 data2 st =
     (let key = (chan, data1) in
      if event_type = 0x90 \<and> 0 < data2 then
        let stack = (case map_of (st_active st) key of None \<Rightarrow> [] | Some s \<Rightarrow> s)
        in st\<lparr>st_active := AList.update key (stack @ [(st_tick st, data2)]) (st_active st)\<rparr>
      else if event_type = 0x80 \<or> (event_type = 0x90 \<and> data2 = 0) then
        (case map_of (st_active st) key of
           None \<Rightarrow> st
         | Some stack \<Rightarrow>
             if stack = [] then st
             else
               let (start, vel) = last stack;
                   st' = st\<lparr>st_active := AList.update key (butlast stack) (st_active st)\<rparr>
               in
               if start < st_tick st then
                 st'\<lparr>st_notes := st_notes st' @
                       [\<lparr>start_tick = start, NoteEvent.end_tick = st_tick st, channel = chan,
                         pitch = data1, velocity = vel\<rparr>]\<rparr>
               else st')
      else st)"

text \<open>Lines 156--216: the dispatch on the status byte, once it is known.\<close>

definition dispatch_event :: "byte list \<Rightarrow> int \<Rightarrow> track_state \<Rightarrow> error + (bool \<times> track_state)" where
  "dispatch_event track status st =
     (if status = 0xFF then meta_event track st
      else if status = 0xF0 \<or> status = 0xF7 then sysex_event track st
      else
        let event_type = status AND 0xF0;
            chan = status AND 0x0F
        in
        if event_type = 0xC0 \<or> event_type = 0xD0 then
          (if length track \<le> st_pos st then Inl (MidiParseError ''Malformed MIDI event'')
           else Inr (True, st\<lparr>st_pos := st_pos st + 1\<rparr>))
        else if length track \<le> st_pos st + 1 then Inl (MidiParseError ''Malformed MIDI event'')
        else
          let data1 = uint (track ! st_pos st);
              data2 = uint (track ! (st_pos st + 1))
          in Inr (True, note_event chan event_type data1 data2 (st\<lparr>st_pos := st_pos st + 2\<rparr>)))"

text \<open>Lines 140--216: one pass through the body of the loop.\<close>

definition track_event :: "byte list \<Rightarrow> track_state \<Rightarrow> error + (bool \<times> track_state)" where
  "track_event track st =
     (case read_vlq track (st_pos st) of
        Inl e \<Rightarrow> Inl e
      | Inr (delta, pos1) \<Rightarrow>
          let st1 = st\<lparr>st_pos := pos1, st_tick := st_tick st + delta\<rparr> in
          if length track \<le> pos1 then Inr (False, st1)
          else
            let status = uint (track ! pos1) in
            if 0x80 \<le> status then
              dispatch_event track status
                (st1\<lparr>st_pos := pos1 + 1,
                     st_running_status :=
                       (if status < 0xF0 then Some status else st_running_status st1)\<rparr>)
            else
              (case st_running_status st1 of
                 None \<Rightarrow> Inl (MidiParseError ''Running status used before status byte'')
               | Some rs \<Rightarrow> dispatch_event track rs st1))"

lemma read_vlq_loop_pos:
  "read_vlq_loop data offset val = Inr (v, p) \<Longrightarrow> offset < p"
proof (induction data offset val rule: read_vlq_loop.induct)
  case (1 data offset val)
  from "1.prems" show ?case
    by (subst (asm) read_vlq_loop.simps)
       (auto simp: Let_def split: if_splits dest!: "1.IH"[OF _ refl refl refl])
qed

lemma read_vlq_pos: "read_vlq data offset = Inr (v, p) \<Longrightarrow> offset < p"
  unfolding read_vlq_def by (rule read_vlq_loop_pos)

lemma meta_event_pos: "meta_event track st = Inr (c, st') \<Longrightarrow> st_pos st < st_pos st'"
  by (auto simp: meta_event_def Let_def split: if_splits sum.splits dest!: read_vlq_pos)

lemma sysex_event_pos: "sysex_event track st = Inr (c, st') \<Longrightarrow> st_pos st < st_pos st'"
  by (auto simp: sysex_event_def split: sum.splits dest!: read_vlq_pos)

lemma note_event_pos: "st_pos (note_event chan event_type data1 data2 st) = st_pos st"
  by (simp add: note_event_def Let_def split: option.splits prod.splits)

lemma dispatch_event_pos:
  "dispatch_event track status st = Inr (c, st') \<Longrightarrow> st_pos st \<le> st_pos st'"
  by (auto simp: dispatch_event_def Let_def note_event_pos
      split: if_splits dest: meta_event_pos sysex_event_pos)

lemma track_event_pos: "track_event track st = Inr (c, st') \<Longrightarrow> st_pos st < st_pos st'"
  by (auto simp: track_event_def Let_def
      split: sum.splits if_splits option.splits dest!: read_vlq_pos dispatch_event_pos)

function track_loop :: "byte list \<Rightarrow> track_state \<Rightarrow> error + track_state" where
  "track_loop track st =
     (if st_pos st < length track then
        (case track_event track st of
           Inl e \<Rightarrow> Inl e
         | Inr (continue, st') \<Rightarrow> if continue then track_loop track st' else Inr st')
      else Inr st)"
  by pat_completeness auto
termination
  by (relation "measure (\<lambda>(track, st). length track - st_pos st)")
     (auto dest!: track_event_pos)

declare track_loop.simps [simp del]

subsection \<open>One track chunk, and the whole file\<close>

text \<open>Lines 218--229: at the end of a track every note still open is closed at the last tick
  reached, key by key in the order of the dictionary and each stack from its bottom.\<close>

definition close_active ::
  "int \<Rightarrow> ((int \<times> int) \<times> (int \<times> int) list) list \<Rightarrow> NoteEvent list" where
  "close_active tk act =
     concat (map (\<lambda>((chan, n), stack).
       map (\<lambda>(start, vel).
              \<lparr>start_tick = start, NoteEvent.end_tick = tk, channel = chan,
               pitch = n, velocity = vel\<rparr>)
           (filter (\<lambda>(start, vel). start < tk) stack)) act)"

text \<open>\<^verbatim>\<open>data[a:a + n]\<close> on a \<^verbatim>\<open>bytes\<close> object: a slice never raises, it is cut at the end
  of the buffer.\<close>

definition slice :: "byte list \<Rightarrow> nat \<Rightarrow> nat \<Rightarrow> byte list" where
  "slice data a n = take n (drop a data)"

text \<open>\<^verbatim>\<open>struct.unpack_from(">I", data, offset)\<close> and one field of \<^verbatim>\<open>">HHH"\<close>: big-endian
  unsigned integers; \<^verbatim>\<open>struct.error\<close> where the buffer is too short.\<close>

definition be_int :: "byte list \<Rightarrow> int" where
  "be_int bs = foldl (\<lambda>acc b. acc * 256 + uint b) 0 bs"

definition unpack_I :: "byte list \<Rightarrow> nat \<Rightarrow> error + int" where
  "unpack_I data offset =
     (if length data < offset + 4 then Inl StructError
      else Inr (be_int (slice data offset 4)))"

definition unpack_HHH :: "byte list \<Rightarrow> nat \<Rightarrow> error + (int \<times> int \<times> int)" where
  "unpack_HHH data offset =
     (if length data < offset + 6 then Inl StructError
      else Inr (be_int (slice data offset 2), be_int (slice data (offset + 2) 2),
                be_int (slice data (offset + 4) 2)))"

definition MThd :: "byte list" where
  "MThd = [0x4D, 0x54, 0x68, 0x64]"

definition MTrk :: "byte list" where
  "MTrk = [0x4D, 0x54, 0x72, 0x6B]"

text \<open>The accumulators of \<^verbatim>\<open>parse_midi\<close> that the loop over the tracks carries.\<close>

record file_state =
  fs_offset :: nat
  fs_notes :: "NoteEvent list"
  fs_tempos :: "TempoEvent list"
  fs_time_signature :: TimeSignature
  fs_song_end_tick :: int

text \<open>Lines 126--231: the body of \<^verbatim>\<open>for _track_index in range(track_count)\<close>.\<close>

definition parse_track :: "byte list \<Rightarrow> file_state \<Rightarrow> error + file_state" where
  "parse_track data fs =
     (if slice data (fs_offset fs) 4 = MTrk then
        (case unpack_I data (fs_offset fs + 4) of
           Inl e \<Rightarrow> Inl e
         | Inr track_len \<Rightarrow>
             let offset = fs_offset fs + 8;
                 track = slice data offset (nat track_len)
             in
             (case track_loop track
                     \<lparr>st_pos = 0, st_tick = 0, st_running_status = None, st_active = [],
                      st_notes = fs_notes fs, st_tempos = fs_tempos fs,
                      st_time_signature = fs_time_signature fs\<rparr> of
                Inl e \<Rightarrow> Inl e
              | Inr st \<Rightarrow>
                  Inr \<lparr>fs_offset = offset + nat track_len,
                       fs_notes = st_notes st @ close_active (st_tick st) (st_active st),
                       fs_tempos = st_tempos st,
                       fs_time_signature = st_time_signature st,
                       fs_song_end_tick = max (fs_song_end_tick fs) (st_tick st)\<rparr>))
      else Inl (MidiParseError ''Missing MTrk header''))"

fun parse_tracks :: "nat \<Rightarrow> byte list \<Rightarrow> file_state \<Rightarrow> error + file_state" where
  "parse_tracks 0 data fs = Inr fs"
| "parse_tracks (Suc n) data fs =
     (case parse_track data fs of Inl e \<Rightarrow> Inl e | Inr fs' \<Rightarrow> parse_tracks n data fs')"

text \<open>Lines 233--240: the default tempo, then the last tempo of each tick, sorted.\<close>

definition finish_tempos :: "TempoEvent list \<Rightarrow> TempoEvent list" where
  "finish_tempos tps =
     (let tps' = (if tps = [] then [\<lparr>tick = 0, bpm = 120\<rparr>] else tps);
          tempo_by_tick = fold (\<lambda>tempo m. AList.update (tick tempo) (bpm tempo) m) tps' []
      in map (\<lambda>(t, b). \<lparr>tick = t, bpm = b\<rparr>) (sort tempo_by_tick))"

text \<open>Lines 97--248, from the bytes of the file on (\<^verbatim>\<open>path.read_bytes()\<close> is the caller's).\<close>

definition parse_midi :: "byte list \<Rightarrow> error + MidiSong" where
  "parse_midi data =
     (if slice data 0 4 = MThd then
        (case unpack_I data 4 of
           Inl e \<Rightarrow> Inl e
         | Inr header_len \<Rightarrow>
             if header_len < 6 then Inl (MidiParseError ''Invalid MIDI header length'')
             else
               (case unpack_HHH data 8 of
                  Inl e \<Rightarrow> Inl e
                | Inr (fmt, track_count, division) \<Rightarrow>
                    if division AND 0x8000 = 0 then
                      if division \<le> 0 then Inl (MidiParseError ''Invalid PPQN'')
                      else
                        (case parse_tracks (nat track_count) data
                                \<lparr>fs_offset = 8 + nat header_len, fs_notes = [], fs_tempos = [],
                                 fs_time_signature = \<lparr>numerator = 4, denominator = 4\<rparr>,
                                 fs_song_end_tick = 0\<rparr> of
                           Inl e \<Rightarrow> Inl e
                         | Inr fs \<Rightarrow>
                             Inr \<lparr>ppqn = division, song_notes = fs_notes fs,
                                  tempos = finish_tempos (fs_tempos fs),
                                  time_signature = fs_time_signature fs,
                                  end_tick = fs_song_end_tick fs\<rparr>)
                    else Inl (MidiParseError ''SMPTE timing MIDI is not supported'')))
      else Inl (MidiParseError ''Missing MThd header''))"

section \<open>Voice/channel selector\<close>

text \<open>\<^verbatim>\<open>str.strip()\<close> removes the white space of both ends, \<^verbatim>\<open>str.split(",")\<close> cuts at
  every comma. A \<open>char\<close> stands for a code point below 256, and \<open>is_space\<close> holds of the ones
  that \<^verbatim>\<open>str.isspace\<close> accepts (a code point from 256 on has no \<open>char\<close>). The builtin
  \<^verbatim>\<open>int(token)\<close> is a parameter \<open>to_int\<close> of the model (\<open>None\<close> where it raises
  \<^verbatim>\<open>ValueError\<close>).\<close>

datatype value_error = InvalidChannelInteger string | InvalidChannelRange string

definition is_space :: "char \<Rightarrow> bool" where
  "is_space c = (c \<in> set [CHR '' '', CHR 0x09, CHR 0x0A, CHR 0x0B, CHR 0x0C, CHR 0x0D,
                            CHR 0x1C, CHR 0x1D, CHR 0x1E, CHR 0x1F, CHR 0x85, CHR 0xA0])"

definition strip :: "string \<Rightarrow> string" where
  "strip s = rev (dropWhile is_space (rev (dropWhile is_space s)))"

fun split_comma :: "string \<Rightarrow> string list" where
  "split_comma [] = [[]]"
| "split_comma (c # cs) =
     (if c = CHR '','' then [] # split_comma cs
      else (case split_comma cs of [] \<Rightarrow> [[c]] | p # ps \<Rightarrow> (c # p) # ps))"

fun parse_channel_parts ::
  "(string \<Rightarrow> int option) \<Rightarrow> string list \<Rightarrow> int list \<Rightarrow> value_error + int list" where
  "parse_channel_parts to_int [] channels = Inr channels"
| "parse_channel_parts to_int (part # parts) channels =
     (let token = strip part in
      if token = [] then parse_channel_parts to_int parts channels
      else
        (case to_int token of
           None \<Rightarrow> Inl (InvalidChannelInteger token)
         | Some v \<Rightarrow>
             if 1 \<le> v \<and> v \<le> 16 then parse_channel_parts to_int parts (channels @ [v - 1])
             else Inl (InvalidChannelRange token)))"

definition parse_channel_list ::
  "(string \<Rightarrow> int option) \<Rightarrow> string option \<Rightarrow> value_error + int list option" where
  "parse_channel_list to_int raw =
     (case raw of
        None \<Rightarrow> Inr None
      | Some r \<Rightarrow>
          (case parse_channel_parts to_int (split_comma r) [] of
             Inl e \<Rightarrow> Inl e
           | Inr channels \<Rightarrow> if channels = [] then Inr None else Inr (Some channels)))"

text \<open>\<^verbatim>\<open>by_channel[note.channel] += 1\<close> on a \<^verbatim>\<open>defaultdict(int)\<close>.\<close>

definition count_channel :: "NoteEvent \<Rightarrow> (int \<times> int) list \<Rightarrow> (int \<times> int) list" where
  "count_channel n by_channel =
     AList.update (channel n)
       ((case map_of by_channel (channel n) of None \<Rightarrow> 0 | Some c \<Rightarrow> c) + 1) by_channel"

definition choose_voice_channels :: "NoteEvent list \<Rightarrow> nat \<Rightarrow> int list option \<Rightarrow> int list" where
  "choose_voice_channels nts voices explicit =
     (case explicit of
        Some (e # es) \<Rightarrow>
          (let chosen = take voices (e # es) in
           if length chosen < voices then
             let remaining = filter (\<lambda>ch. ch \<notin> set chosen) [0..15]
             in chosen @ take (voices - length chosen) remaining
           else chosen)
      | _ \<Rightarrow>
          (let by_channel = fold count_channel nts [];
               ranked = map fst (sort_key (\<lambda>(ch, cnt). (- cnt, ch)) by_channel)
           in
           if ranked = [] then map int [0..<voices]
           else
             take voices
               (if length ranked < voices
                then ranked @ filter (\<lambda>ch. ch \<notin> set ranked) [0..15]
                else ranked)))"

section \<open>Monophonic reducer\<close>

text \<open>The body of the loop of \<^verbatim>\<open>select_monophonic_onsets\<close>, and the loop over the notes
  sorted (stably) by \<^verbatim>\<open>(start_tick, end_tick, note)\<close>.\<close>

definition onset_step ::
  "int \<Rightarrow> string \<Rightarrow> NoteEvent \<Rightarrow> (int \<times> NoteEvent) list \<Rightarrow> (int \<times> NoteEvent) list" where
  "onset_step chan chord_policy n onsets =
     (if channel n = chan then
        (case map_of onsets (start_tick n) of
           None \<Rightarrow> AList.update (start_tick n) n onsets
         | Some existing \<Rightarrow>
             let pick =
                   (if chord_policy = ''high'' then pitch existing < pitch n
                    else if chord_policy = ''low'' then pitch n < pitch existing
                    else False)
             in if pick then AList.update (start_tick n) n onsets else onsets)
      else onsets)"

definition select_monophonic_onsets ::
  "NoteEvent list \<Rightarrow> int \<Rightarrow> string \<Rightarrow> (int \<times> NoteEvent) list" where
  "select_monophonic_onsets nts chan chord_policy =
     fold (onset_step chan chord_policy)
       (sort_key (\<lambda>n. (start_tick n, NoteEvent.end_tick n, pitch n)) nts) []"

section \<open>Timeline scheduler\<close>

text \<open>\<^verbatim>\<open>int(round(440.0 * (2.0 ** ((note - 69) / 12.0))))\<close>, over the reals.\<close>

definition midi_note_to_freq :: "int \<Rightarrow> int" where
  "midi_note_to_freq n = py_round (440 * 2 powr ((real_of_int n - 69) / 12))"

text \<open>Lines 372--375.\<close>

definition onsets_per_voice ::
  "MidiSong \<Rightarrow> nat \<Rightarrow> int list \<Rightarrow> string \<Rightarrow> (int \<times> NoteEvent) list list" where
  "onsets_per_voice song voices voice_channels chord_policy =
     map (\<lambda>chan. select_monophonic_onsets (song_notes song) chan chord_policy)
       (take voices voice_channels)"

text \<open>Lines 381--383: \<^verbatim>\<open>song.tempos[0]\<close> raises \<^verbatim>\<open>IndexError\<close> on an empty list.\<close>

definition tempo_by_tick :: "MidiSong \<Rightarrow> error + (int \<times> int) list" where
  "tempo_by_tick song =
     (let m = fold (\<lambda>tempo m. AList.update (tick tempo) (bpm tempo) m) (tempos song) [] in
      if 0 \<in> set (map fst m) then Inr m
      else (case tempos song of
              [] \<Rightarrow> Inl IndexError
            | t # _ \<Rightarrow> Inr (AList.update 0 (bpm t) m)))"

text \<open>Lines 377--398: the set \<^verbatim>\<open>all_ticks\<close> and the list \<^verbatim>\<open>timeline\<close>.\<close>

definition timeline ::
  "(int \<times> NoteEvent) list list \<Rightarrow> (int \<times> int) list \<Rightarrow> MidiSong \<Rightarrow> string \<Rightarrow> int \<Rightarrow> int list" where
  "timeline opv tbt song tempo_mode tail_ticks =
     (let all_ticks = fold (\<lambda>onsets s. s \<union> set (map fst onsets)) opv {};
          all_ticks1 =
            (if tempo_mode = ''track''
             then fold (\<lambda>tk s. if 0 < tk then insert tk s else s) (map fst tbt) all_ticks
             else all_ticks);
          all_ticks2 =
            (if 0 < end_tick song then insert (end_tick song + max 0 tail_ticks) all_ticks1
             else all_ticks1);
          tl = sorted_list_of_set all_ticks2
      in if tl = [] then [0] else tl)"

text \<open>Lines 404--419: the row of one tick.\<close>

definition event_row ::
  "(int \<times> NoteEvent) list list \<Rightarrow> (int \<times> int) list \<Rightarrow> string \<Rightarrow> int \<Rightarrow> int \<Rightarrow> int list" where
  "event_row opv tbt tempo_mode prev_tick tk =
     (let wait_ticks = max 0 (tk - prev_tick);
          tempo =
            (if tempo_mode = ''track'' \<and> tk \<in> set (map fst tbt) \<and> tk \<noteq> 0
             then (case map_of tbt tk of Some b \<Rightarrow> b | None \<Rightarrow> 0)
             else 0)
      in [wait_ticks, tempo] @
         concat (map (\<lambda>onsets.
           (case map_of onsets tk of
              None \<Rightarrow> [0, 0]
            | Some n \<Rightarrow>
                [midi_note_to_freq (pitch n),
                 max 1 (NoteEvent.end_tick n - start_tick n)])) opv))"

fun event_rows ::
  "(int \<times> NoteEvent) list list \<Rightarrow> (int \<times> int) list \<Rightarrow> string \<Rightarrow> int \<Rightarrow> int list
     \<Rightarrow> int list list" where
  "event_rows opv tbt tempo_mode prev_tick [] = []"
| "event_rows opv tbt tempo_mode prev_tick (tk # tks) =
     event_row opv tbt tempo_mode prev_tick tk # event_rows opv tbt tempo_mode tk tks"

text \<open>Lines 422--426: a last row that waits for nothing and plays nothing is removed.\<close>

definition drop_inert_tail :: "int list list \<Rightarrow> int list list" where
  "drop_inert_tail events =
     (if events = [] then events
      else
        let last_row = last events in
        if last_row ! 1 = 0 \<and> list_all (\<lambda>v. v = 0) (drop 2 last_row) \<and> last_row ! 0 = 0
        then butlast events else events)"

text \<open>Lines 372--398 and 372--426 of \<^verbatim>\<open>emit_basic\<close>: the timeline and the list \<^verbatim>\<open>events\<close>.\<close>

definition emit_timeline ::
  "MidiSong \<Rightarrow> nat \<Rightarrow> int list \<Rightarrow> string \<Rightarrow> string \<Rightarrow> int \<Rightarrow> error + int list" where
  "emit_timeline song voices voice_channels chord_policy tempo_mode tail_ticks =
     (case tempo_by_tick song of
        Inl e \<Rightarrow> Inl e
      | Inr tbt \<Rightarrow>
          Inr (timeline (onsets_per_voice song voices voice_channels chord_policy) tbt song
                 tempo_mode tail_ticks))"

definition emit_events ::
  "MidiSong \<Rightarrow> nat \<Rightarrow> int list \<Rightarrow> string \<Rightarrow> string \<Rightarrow> int \<Rightarrow> error + int list list" where
  "emit_events song voices voice_channels chord_policy tempo_mode tail_ticks =
     (case tempo_by_tick song of
        Inl e \<Rightarrow> Inl e
      | Inr tbt \<Rightarrow>
          let opv = onsets_per_voice song voices voice_channels chord_policy
          in Inr (drop_inert_tail
                    (event_rows opv tbt tempo_mode 0
                       (timeline opv tbt song tempo_mode tail_ticks))))"

section \<open>Row encoder\<close>

text \<open>\<^verbatim>\<open>str(x)\<close> of an integer and \<^verbatim>\<open>sep.join(parts)\<close>.\<close>

fun digits :: "nat \<Rightarrow> string" where
  "digits n =
     (if n < 10 then [''0123456789'' ! n]
      else digits (n div 10) @ [''0123456789'' ! (n mod 10)])"

declare digits.simps [simp del]

definition str_int :: "int \<Rightarrow> string" where
  "str_int x = (if x < 0 then CHR ''-'' # digits (nat (- x)) else digits (nat x))"

fun join :: "string \<Rightarrow> string list \<Rightarrow> string" where
  "join sep [] = []"
| "join sep [x] = x"
| "join sep (x # y # ys) = x @ sep @ join sep (y # ys)"

text \<open>
  The lines of the \<^verbatim>\<open>DATA\<close> section that \<^verbatim>\<open>emit_basic\<close> appends to \<^verbatim>\<open>lines\<close> from line 512
  on: a measure marker \<^verbatim>\<open>"{data_line} REM M{n}"\<close> or a \<^verbatim>\<open>DATA\<close> statement holding the rows of
  one chunk. \<open>render\<close> is the text of the line; the rows stay visible in the model.
\<close>

datatype basic_line = RemLine int int | DataLine int "int list list"

definition event_csv :: "int list \<Rightarrow> string" where
  "event_csv event = join '','' (map str_int event)"

definition prefix :: "int \<Rightarrow> string" where
  "prefix line_no = str_int line_no @ '' DATA ''"

fun render :: "basic_line \<Rightarrow> string" where
  "render (RemLine line_no m) = str_int line_no @ '' REM M'' @ str_int m"
| "render (DataLine line_no chunk) = prefix line_no @ join '','' (map event_csv chunk)"

fun line_rows :: "basic_line \<Rightarrow> int list list" where
  "line_rows (RemLine line_no m) = []"
| "line_rows (DataLine line_no chunk) = chunk"

record enc_state =
  enc_lines :: "basic_line list"
  enc_data_line :: int
  enc_chunk :: "int list list"
  enc_current_measure :: int
  enc_prev_tick :: int

text \<open>Lines 513--532, the body of \<^verbatim>\<open>for event in events\<close>. A row has at least two fields, so
  \<^verbatim>\<open>event[0]\<close> is defined; \<^verbatim>\<open>tick // ticks_per_bar\<close> raises on a zero divisor.\<close>

definition encode_event :: "int \<Rightarrow> int \<Rightarrow> int list \<Rightarrow> enc_state \<Rightarrow> error + enc_state" where
  "encode_event ticks_per_bar max_line_len event es =
     (let tk = enc_prev_tick es + event ! 0 in
      case (if enc_current_measure es * ticks_per_bar \<le> tk then
              (if ticks_per_bar = 0 then Inl ZeroDivisionError
               else Inr (es\<lparr>enc_lines := enc_lines es @
                                 [RemLine (enc_data_line es) (enc_current_measure es + 1)],
                             enc_data_line := enc_data_line es + 10,
                             enc_current_measure := tk div ticks_per_bar + 1,
                             enc_prev_tick := tk\<rparr>))
            else Inr (es\<lparr>enc_prev_tick := tk\<rparr>)) of
        Inl e \<Rightarrow> Inl e
      | Inr es1 \<Rightarrow>
          let candidate =
                (if enc_chunk es1 = [] then event_csv event
                 else join '','' (map event_csv (enc_chunk es1) @ [event_csv event]))
          in
          if max_line_len < int (length (prefix (enc_data_line es1))) + int (length candidate) then
            (if enc_chunk es1 = [] then Inl (RuntimeError ''Event row too wide for max-line-len'')
             else Inr (es1\<lparr>enc_lines := enc_lines es1 @
                                 [DataLine (enc_data_line es1) (enc_chunk es1)],
                            enc_data_line := enc_data_line es1 + 10,
                            enc_chunk := [event]\<rparr>))
          else Inr (es1\<lparr>enc_chunk := enc_chunk es1 @ [event]\<rparr>))"

fun encode_events :: "int \<Rightarrow> int \<Rightarrow> int list list \<Rightarrow> enc_state \<Rightarrow> error + enc_state" where
  "encode_events ticks_per_bar max_line_len [] es = Inr es"
| "encode_events ticks_per_bar max_line_len (event # events) es =
     (case encode_event ticks_per_bar max_line_len event es of
        Inl e \<Rightarrow> Inl e
      | Inr es' \<Rightarrow> encode_events ticks_per_bar max_line_len events es')"

text \<open>Line 432: \<^verbatim>\<open>int(round(song.ppqn * 4 * ts.numerator / ts.denominator))\<close>.\<close>

definition ticks_per_bar :: "MidiSong \<Rightarrow> error + int" where
  "ticks_per_bar song =
     (case py_truediv (ppqn song * 4 * numerator (time_signature song))
             (denominator (time_signature song)) of
        Inl e \<Rightarrow> Inl e
      | Inr q \<Rightarrow> Inr (py_round q))"

text \<open>Line 538.\<close>

definition sentinel :: "nat \<Rightarrow> int list" where
  "sentinel voices = [- 1, 0] @ replicate (voices * 2) 0"

text \<open>
  \<^verbatim>\<open>emit_basic\<close>, as far as the rows go: the list \<^verbatim>\<open>events\<close> (lines 372--426), the chunks of
  \<^verbatim>\<open>DATA\<close> lines with their measure markers (lines 508--536), the sentinel (lines 538--539)
  and the final check of the line lengths (lines 541--545) on these lines. The lines of the
  program text before them (the \<^verbatim>\<open>REM\<close> header, the player loop and line 2000) carry no row
  and are left out, with the arguments only they use (\<^verbatim>\<open>input_label\<close>, \<^verbatim>\<open>title\<close>,
  \<^verbatim>\<open>bpm_override\<close>, \<^verbatim>\<open>volume\<close>). The source fails on them in two cases where this model
  returns: \<^verbatim>\<open>DEFAULT_VOICES[v]\<close> raises \<^verbatim>\<open>IndexError\<close> for more than four voices, and the final
  check raises \<^verbatim>\<open>RuntimeError\<close> for a line of that text longer than \<^verbatim>\<open>max_line_len\<close>. Where
  the source returns, the model returns, with the same \<^verbatim>\<open>DATA\<close> lines. The first \<^verbatim>\<open>DATA\<close> line
  has the number 2010.
\<close>

definition emit_basic ::
  "MidiSong \<Rightarrow> nat \<Rightarrow> int list \<Rightarrow> string \<Rightarrow> string \<Rightarrow> int \<Rightarrow> int \<Rightarrow> error + basic_line list" where
  "emit_basic song voices voice_channels chord_policy tempo_mode tail_ticks max_line_len =
     (case emit_events song voices voice_channels chord_policy tempo_mode tail_ticks of
        Inl e \<Rightarrow> Inl e
      | Inr events \<Rightarrow>
          (case ticks_per_bar song of
             Inl e \<Rightarrow> Inl e
           | Inr tpb \<Rightarrow>
               (case encode_events tpb max_line_len events
                       \<lparr>enc_lines = [], enc_data_line = 2010, enc_chunk = [],
                        enc_current_measure = 1, enc_prev_tick = 0\<rparr> of
                  Inl e \<Rightarrow> Inl e
                | Inr es \<Rightarrow>
                    let es' =
                          (if enc_chunk es = [] then es
                           else es\<lparr>enc_lines := enc_lines es @
                                       [DataLine (enc_data_line es) (enc_chunk es)],
                                   enc_data_line := enc_data_line es + 10\<rparr>);
                        lines = enc_lines es' @ [DataLine (enc_data_line es') [sentinel voices]]
                    in
                    if list_all (\<lambda>src_line. int (length (render src_line)) \<le> max_line_len) lines
                    then Inr lines
                    else Inl (RuntimeError ''Generated BASIC line exceeds max-line-len''))))"

text \<open>The rows that a \<^verbatim>\<open>READ\<close> loop meets in the emitted \<^verbatim>\<open>DATA\<close> lines, in order.\<close>

definition data_rows :: "basic_line list \<Rightarrow> int list list" where
  "data_rows lines = concat (map line_rows lines)"

section \<open>The conversion, from the bytes of the file to the rows\<close>

text \<open>
  \<^verbatim>\<open>main\<close> from line 620 on: decode, refuse a song without notes (\<^verbatim>\<open>main\<close> prints an error
  and returns 1; here the error \<open>NoNoteEvents\<close>), choose the channels, emit. The line length is
  \<^verbatim>\<open>max(40, args.max_line_len)\<close>.
\<close>

definition convert ::
  "byte list \<Rightarrow> nat \<Rightarrow> int list option \<Rightarrow> string \<Rightarrow> string \<Rightarrow> int \<Rightarrow> int
     \<Rightarrow> error + basic_line list" where
  "convert data voices explicit_channels chord_policy tempo_mode tail_ticks max_line_len =
     (case parse_midi data of
        Inl e \<Rightarrow> Inl e
      | Inr song \<Rightarrow>
          if song_notes song = [] then Inl NoNoteEvents
          else
            emit_basic song voices
              (choose_voice_channels (song_notes song) voices explicit_channels)
              chord_policy tempo_mode tail_ticks (max 40 max_line_len))"

definition convert_rows ::
  "byte list \<Rightarrow> nat \<Rightarrow> int list option \<Rightarrow> string \<Rightarrow> string \<Rightarrow> int \<Rightarrow> int
     \<Rightarrow> error + int list list" where
  "convert_rows data voices explicit_channels chord_policy tempo_mode tail_ticks max_line_len =
     (case convert data voices explicit_channels chord_policy tempo_mode tail_ticks max_line_len of
        Inl e \<Rightarrow> Inl e
      | Inr lines \<Rightarrow> Inr (data_rows lines))"

section \<open>Fixtures\<close>

text \<open>
  A format-0 file of one track: resolution 480; at tick 0 a tempo of 500000 microseconds per
  quarter note (120 BPM) and the time signature 4/4; on channel 0 the pitch 60 from tick 0 to
  tick 480 and the pitch 64 from tick 480 to tick 960, both with velocity 64; end of track.
\<close>

definition minimal_file :: "byte list" where
  "minimal_file =
     [0x4D, 0x54, 0x68, 0x64, 0, 0, 0, 6, 0, 0, 0, 1, 0x01, 0xE0,
      0x4D, 0x54, 0x72, 0x6B, 0, 0, 0, 37,
      0, 0xFF, 0x51, 3, 0x07, 0xA1, 0x20,
      0, 0xFF, 0x58, 4, 4, 2, 24, 8,
      0, 0x90, 60, 64,
      0x83, 0x60, 0x80, 60, 0,
      0, 0x90, 64, 64,
      0x83, 0x60, 0x80, 64, 0,
      0, 0xFF, 0x2F, 0]"

definition n60 :: NoteEvent where
  "n60 = \<lparr>start_tick = 0, NoteEvent.end_tick = 480, channel = 0, pitch = 60, velocity = 64\<rparr>"

definition n64 :: NoteEvent where
  "n64 = \<lparr>start_tick = 480, NoteEvent.end_tick = 960, channel = 0, pitch = 64, velocity = 64\<rparr>"

definition minimal_song :: MidiSong where
  "minimal_song =
     \<lparr>ppqn = 480, song_notes = [n60, n64], tempos = [\<lparr>tick = 0, bpm = 120\<rparr>],
      time_signature = \<lparr>numerator = 4, denominator = 4\<rparr>, end_tick = 960\<rparr>"

text \<open>The state in which \<^verbatim>\<open>parse_midi\<close> starts the first track of a file.\<close>

definition fresh_track_state :: track_state where
  "fresh_track_state =
     \<lparr>st_pos = 0, st_tick = 0, st_running_status = None, st_active = [], st_notes = [],
      st_tempos = [], st_time_signature = \<lparr>numerator = 4, denominator = 4\<rparr>\<rparr>"

text \<open>A track body that releases the pitch 60 on channel 0, which was never pressed.\<close>

definition orphan_off_track :: "byte list" where
  "orphan_off_track = [0, 0x80, 60, 0, 0, 0xFF, 0x2F, 0]"

text \<open>A track body whose tempo event carries 0 microseconds per quarter note.\<close>

definition zero_tempo_track :: "byte list" where
  "zero_tempo_track = [0, 0xFF, 0x51, 3, 0, 0, 0, 0, 0xFF, 0x2F, 0]"

text \<open>A track body, and a file, whose time signature event has the numerator byte 0 and the
  denominator byte 2.\<close>

definition time_signature_track :: "byte list" where
  "time_signature_track = [0, 0xFF, 0x58, 4, 0, 2, 24, 8, 0, 0xFF, 0x2F, 0]"

definition zero_numerator_file :: "byte list" where
  "zero_numerator_file =
     [0x4D, 0x54, 0x68, 0x64, 0, 0, 0, 6, 0, 0, 0, 1, 0x01, 0xE0,
      0x4D, 0x54, 0x72, 0x6B, 0, 0, 0, 20,
      0, 0xFF, 0x58, 4, 0, 2, 24, 8,
      0, 0x90, 60, 64,
      0x60, 0x80, 60, 0,
      0, 0xFF, 0x2F, 0]"



text \<open>
  Three files that declare more bytes than they have. The first is the minimal file with the
  length 1000 in its track chunk, whose body has 37 bytes. The other two hold the two notes of
  the minimal file and end with a text event (type 0x01), respectively a system-exclusive
  event, that declares 10 payload bytes where 2, respectively 1, remain; the last two
  definitions are the ends of these track bodies.
\<close>

definition overlong_chunk_file :: "byte list" where
  "overlong_chunk_file =
     [0x4D, 0x54, 0x68, 0x64, 0, 0, 0, 6, 0, 0, 0, 1, 0x01, 0xE0,
      0x4D, 0x54, 0x72, 0x6B, 0, 0, 0x03, 0xE8,
      0, 0xFF, 0x51, 3, 0x07, 0xA1, 0x20,
      0, 0xFF, 0x58, 4, 4, 2, 24, 8,
      0, 0x90, 60, 64,
      0x83, 0x60, 0x80, 60, 0,
      0, 0x90, 64, 64,
      0x83, 0x60, 0x80, 64, 0,
      0, 0xFF, 0x2F, 0]"

definition overlong_meta_file :: "byte list" where
  "overlong_meta_file =
     [0x4D, 0x54, 0x68, 0x64, 0, 0, 0, 6, 0, 0, 0, 1, 0x01, 0xE0,
      0x4D, 0x54, 0x72, 0x6B, 0, 0, 0, 24,
      0, 0x90, 60, 64,
      0x83, 0x60, 0x80, 60, 0,
      0, 0x90, 64, 64,
      0x83, 0x60, 0x80, 64, 0,
      0, 0xFF, 0x01, 10, 0x41, 0x42]"

definition overlong_sysex_file :: "byte list" where
  "overlong_sysex_file =
     [0x4D, 0x54, 0x68, 0x64, 0, 0, 0, 6, 0, 0, 0, 1, 0x01, 0xE0,
      0x4D, 0x54, 0x72, 0x6B, 0, 0, 0, 22,
      0, 0x90, 60, 64,
      0x83, 0x60, 0x80, 60, 0,
      0, 0x90, 64, 64,
      0x83, 0x60, 0x80, 64, 0,
      0, 0xF0, 10, 0x01]"

definition overlong_meta_track :: "byte list" where
  "overlong_meta_track = [0, 0xFF, 0x01, 10, 0x41, 0x42]"

definition overlong_sysex_track :: "byte list" where
  "overlong_sysex_track = [0, 0xF0, 10, 0x01]"

text \<open>Three notes of channel 0 that start together at tick 0: the pitch 64 ends at tick 10,
  the pitches 60 and 67 end at tick 20.\<close>

definition chord_notes :: "NoteEvent list" where
  "chord_notes =
     [\<lparr>start_tick = 0, NoteEvent.end_tick = 20, channel = 0, pitch = 60, velocity = 64\<rparr>,
      \<lparr>start_tick = 0, NoteEvent.end_tick = 10, channel = 0, pitch = 64, velocity = 64\<rparr>,
      \<lparr>start_tick = 0, NoteEvent.end_tick = 20, channel = 0, pitch = 67, velocity = 64\<rparr>]"

text \<open>The state in which \<^verbatim>\<open>parse_midi\<close> reaches the first track chunk of a file whose header
  has the usual length 6.\<close>

definition first_chunk_state :: file_state where
  "first_chunk_state =
     \<lparr>fs_offset = 14, fs_notes = [], fs_tempos = [],
      fs_time_signature = \<lparr>numerator = 4, denominator = 4\<rparr>, fs_song_end_tick = 0\<rparr>"

section \<open>Frequencies\<close>

lemma powr_root_bounds:
  fixes lo hi :: real
  assumes y: "y = 2 powr (- real k / real n)" and n: "0 < n"
    and lo: "0 \<le> lo" "lo ^ n * 2 ^ k < 1" and hi: "0 \<le> hi" "1 < hi ^ n * 2 ^ k"
  shows "lo < y \<and> y < hi"
proof -
  have ypos: "0 < y" using y by simp
  have "y ^ n = y powr (real n)" using ypos by (simp add: powr_realpow)
  also have "\<dots> = 2 powr (- real k)" using n unfolding y by (simp add: powr_powr)
  also have "\<dots> = 1 / 2 ^ k" by (simp add: powr_minus powr_realpow divide_inverse)
  finally have yn: "y ^ n = 1 / 2 ^ k" .
  have "lo ^ n < y ^ n" using lo(2) unfolding yn by (simp add: field_simps)
  then have 1: "lo < y" using ypos by (meson less_eq_real_def power_less_imp_less_base)
  have "y ^ n < hi ^ n" using hi(2) unfolding yn by (simp add: field_simps)
  then have 2: "y < hi" using hi(1) by (meson power_less_imp_less_base)
  from 1 2 show ?thesis ..
qed

lemma py_round_between:
  assumes "real_of_int m - 1 / 2 < x" "x < real_of_int m"
  shows "py_round x = m"
proof -
  have f: "\<lfloor>x\<rfloor> = m - 1" using assms by linarith
  show ?thesis using assms by (simp add: py_round_def f Let_def)
qed

lemma midi_note_to_freq_60: "midi_note_to_freq 60 = 262"
proof -
  have "523 / 880 < (2::real) powr (- 9 / 12) \<and> (2::real) powr (- 9 / 12) < 262 / 440"
    using powr_root_bounds[of "2 powr (- 9 / 12)" 9 12 "523 / 880" "262 / 440"]
    by (simp add: power_divide)
  then show ?thesis
    unfolding midi_note_to_freq_def by (intro py_round_between) simp_all
qed

lemma midi_note_to_freq_64: "midi_note_to_freq 64 = 330"
proof -
  have "659 / 880 < (2::real) powr (- 5 / 12) \<and> (2::real) powr (- 5 / 12) < 330 / 440"
    using powr_root_bounds[of "2 powr (- 5 / 12)" 5 12 "659 / 880" "330 / 440"]
    by (simp add: power_divide)
  then show ?thesis
    unfolding midi_note_to_freq_def by (intro py_round_between) simp_all
qed

section \<open>The end-to-end scenario\<close>

lemma parse_minimal_file: "parse_midi minimal_file = Inr minimal_song"
  by code_simp

lemma choose_minimal_song: "choose_voice_channels (song_notes minimal_song) 1 None = [0]"
  by code_simp

lemma events_minimal_song:
  "emit_events minimal_song 1 [0] ''high'' ''fixed'' 0 =
     Inr [[0, 0, 262, 480], [480, 0, 330, 480], [480, 0, 0, 0]]"
proof -
  have tbt: "tempo_by_tick minimal_song = Inr [(0, 120)]"
    by code_simp
  have opv: "onsets_per_voice minimal_song 1 [0] ''high'' = [[(0, n60), (480, n64)]]"
    by code_simp
  have tl: "timeline [[(0, n60), (480, n64)]] [(0, 120)] minimal_song ''fixed'' 0 = [0, 480, 960]"
    by code_simp
  have rows:
    "event_rows [[(0, n60), (480, n64)]] [(0, 120)] ''fixed'' 0 [0, 480, 960] =
       [[0, 0, 262, 480], [480, 0, 330, 480], [480, 0, 0, 0]]"
    by (simp add: event_row_def n60_def n64_def midi_note_to_freq_60 midi_note_to_freq_64)
  have tail:
    "drop_inert_tail [[0, 0, 262, 480], [480, 0, 330, 480], [480, 0, 0, 0]] =
       [[0, 0, 262, 480], [480, 0, 330, 480], [480, 0, 0, 0]]"
    by code_simp
  show ?thesis
    by (simp only: emit_events_def tbt opv tl rows tail Let_def sum.case)
qed

lemma lines_minimal_song:
  "emit_basic minimal_song 1 [0] ''high'' ''fixed'' 0 68 =
     Inr [DataLine 2010 [[0, 0, 262, 480], [480, 0, 330, 480], [480, 0, 0, 0]],
          DataLine 2020 [[- 1, 0, 0, 0]]]"
proof -
  have tpb: "ticks_per_bar minimal_song = Inr 1920"
    by code_simp
  have enc:
    "(case encode_events 1920 68 [[0, 0, 262, 480], [480, 0, 330, 480], [480, 0, 0, 0]]
             \<lparr>enc_lines = [], enc_data_line = 2010, enc_chunk = [],
              enc_current_measure = 1, enc_prev_tick = 0\<rparr> of
        Inl e \<Rightarrow> Inl e
      | Inr es \<Rightarrow>
          let es' =
                (if enc_chunk es = [] then es
                 else es\<lparr>enc_lines := enc_lines es @
                             [DataLine (enc_data_line es) (enc_chunk es)],
                         enc_data_line := enc_data_line es + 10\<rparr>);
              lines = enc_lines es' @ [DataLine (enc_data_line es') [sentinel 1]]
          in
          if list_all (\<lambda>src_line. int (length (render src_line)) \<le> 68) lines
          then Inr lines
          else Inl (RuntimeError ''Generated BASIC line exceeds max-line-len'')) =
      Inr [DataLine 2010 [[0, 0, 262, 480], [480, 0, 330, 480], [480, 0, 0, 0]],
           DataLine 2020 [[- 1, 0, 0, 0]]]"
    by code_simp
  show ?thesis
    by (simp only: emit_basic_def events_minimal_song tpb sum.case enc)
qed

lemma convert_minimal_file:
  "convert minimal_file 1 None ''high'' ''fixed'' 0 68 =
     Inr [DataLine 2010 [[0, 0, 262, 480], [480, 0, 330, 480], [480, 0, 0, 0]],
          DataLine 2020 [[- 1, 0, 0, 0]]]"
proof -
  have m: "max 40 (68::int) = 68"
    by simp
  have ne: "(song_notes minimal_song = []) = False"
    by code_simp
  show ?thesis
    by (simp only: convert_def parse_minimal_file sum.case ne if_False choose_minimal_song m
        lines_minimal_song)
qed

text \<open>
  C1 (as amended). The minimal file, converted with one voice, automatic channel selection,
  fixed tempo mode, no tail ticks and the default line length, gives three data rows and the
  sentinel: \<open>(0, 0, (262, 480))\<close>, then \<open>(480, 0, (330, 480))\<close> (the pitch 64 is 330 Hz),
  then the closing row \<open>(480, 0, (0, 0))\<close> of the final tick 960, then \<open>(-1, 0, (0, 0))\<close>.
\<close>

theorem end_to_end_rows:
  "convert_rows minimal_file 1 None ''high'' ''fixed'' 0 68 =
     Inr [[0, 0, 262, 480], [480, 0, 330, 480], [480, 0, 0, 0], [- 1, 0, 0, 0]]"
  unfolding convert_rows_def convert_minimal_file by (simp add: data_rows_def)

text \<open>The rows that C1 states are not the rows of the minimal file.\<close>

theorem end_to_end_rows_counterexample:
  "convert_rows minimal_file 1 None ''high'' ''fixed'' 0 68 \<noteq>
     Inr [[0, 0, 262, 480], [480, 0, 294, 480], [- 1, 0, 0, 0]]"
  unfolding convert_rows_def convert_minimal_file by (simp add: data_rows_def)

section \<open>The timeline\<close>

lemma update_nonempty: "AList.update k v al \<noteq> []"
  by (cases al) auto

lemma fold_update_nonempty:
  "m \<noteq> [] \<or> tps \<noteq> [] \<Longrightarrow>
   fold (\<lambda>tempo m. AList.update (tick tempo) (bpm tempo) m) tps m \<noteq> []"
  by (induction tps arbitrary: m) (auto simp: update_nonempty)

lemma sort_nonempty: "xs \<noteq> [] \<Longrightarrow> sort xs \<noteq> []"
  by (cases xs) simp_all

lemma finish_tempos_nonempty: "finish_tempos tps \<noteq> []"
proof -
  have "fold (\<lambda>tempo m. AList.update (tick tempo) (bpm tempo) m)
                (if tps = [] then [\<lparr>tick = 0, bpm = 120\<rparr>] else tps) [] \<noteq> []"
    by (rule fold_update_nonempty) simp
  then show ?thesis
    unfolding finish_tempos_def Let_def by (simp add: sort_nonempty del: fold_simps)
qed

lemma decoded_tempos: "parse_midi data = Inr song \<Longrightarrow> \<exists>tps. tempos song = finish_tempos tps"
  unfolding parse_midi_def
  by (simp split: if_splits sum.splits prod.splits) auto

lemma timeline_sorted: "sorted_wrt (<) (timeline opv tbt song tempo_mode tail_ticks)"
  by (simp add: timeline_def Let_def strict_sorted_list_of_set)

lemma timeline_distinct: "distinct (timeline opv tbt song tempo_mode tail_ticks)"
  by (simp add: timeline_def Let_def)

lemma decoded_tempos_nonempty: "parse_midi data = Inr song \<Longrightarrow> tempos song \<noteq> []"
  using decoded_tempos[of data song] finish_tempos_nonempty by metis

lemma tempo_by_tick_defined: "tempos song \<noteq> [] \<Longrightarrow> \<exists>tbt. tempo_by_tick song = Inr tbt"
  by (cases "tempos song") (auto simp: tempo_by_tick_def Let_def)

text \<open>
  C7. For every song with at least one tempo event, as every decoded song is, and for every
  voice count, channel mapping, chord policy, tempo mode and number of tail ticks, the
  scheduler has a timeline; its ticks are strictly ascending and free of duplicates, and the
  rows are made from exactly this list, one row for each tick (before an inert last row is
  dropped).
\<close>

theorem timeline_strictly_ascending:
  assumes "tempos song \<noteq> []"
  shows "\<exists>tks tbt.
           emit_timeline song voices voice_channels chord_policy tempo_mode tail_ticks = Inr tks \<and>
           sorted_wrt (<) tks \<and> distinct tks \<and>
           tempo_by_tick song = Inr tbt \<and>
           emit_events song voices voice_channels chord_policy tempo_mode tail_ticks =
             Inr (drop_inert_tail
                    (event_rows (onsets_per_voice song voices voice_channels chord_policy)
                       tbt tempo_mode 0 tks))"
proof -
  from tempo_by_tick_defined[OF assms] obtain tbt where "tempo_by_tick song = Inr tbt" ..
  then show ?thesis
    by (simp add: emit_timeline_def emit_events_def Let_def timeline_sorted timeline_distinct)
qed

theorem timeline_strictly_ascending_witness:
  "parse_midi minimal_file = Inr minimal_song \<and> tempos minimal_song \<noteq> [] \<and>
   emit_timeline minimal_song 1 [0] ''high'' ''track'' 0 = Inr [0, 480, 960] \<and>
   sorted_wrt (<) [0::int, 480, 960] \<and> distinct [0::int, 480, 960]"
proof -
  note p = parse_minimal_file
  have t: "tempos minimal_song \<noteq> []"
    using p by (rule decoded_tempos_nonempty)
  have h: "emit_timeline minimal_song 1 [0] ''high'' ''track'' 0 = Inr [0, 480, 960]"
    by code_simp
  from timeline_strictly_ascending[OF t, of 1 "[0]" "''high''" "''track''" 0]
  obtain tks where "emit_timeline minimal_song 1 [0] ''high'' ''track'' 0 = Inr tks"
    and s: "sorted_wrt (<) tks" "distinct tks"
    by blast
  with h have "tks = [0, 480, 960]"
    by simp
  with s p t h show ?thesis
    by blast
qed

section \<open>The sentinel\<close>

lemma event_row_wait: "0 \<le> event_row opv tbt tempo_mode prev_tick tk ! 0"
  by (simp add: event_row_def Let_def)

lemma event_rows_wait:
  "list_all (\<lambda>row. 0 \<le> row ! 0) (event_rows opv tbt tempo_mode prev_tick tks)"
  by (induction tks arbitrary: prev_tick) (simp_all add: event_row_wait)

lemma drop_inert_tail_all: "list_all P events \<Longrightarrow> list_all P (drop_inert_tail events)"
  by (auto simp: drop_inert_tail_def Let_def list_all_iff dest: in_set_butlastD)

lemma emit_events_wait:
  "emit_events song voices voice_channels chord_policy tempo_mode tail_ticks = Inr events \<Longrightarrow>
   list_all (\<lambda>row. 0 \<le> row ! 0) events"
  by (auto simp: emit_events_def Let_def split: sum.splits
      intro!: drop_inert_tail_all event_rows_wait)

text \<open>The encoder moves rows from the chunk to the lines, and neither loses nor reorders one.\<close>

lemma encode_event_rows:
  "encode_event tpb mll event es = Inr es' \<Longrightarrow>
   data_rows (enc_lines es') @ enc_chunk es' = data_rows (enc_lines es) @ enc_chunk es @ [event]"
  by (auto simp: encode_event_def Let_def data_rows_def split: if_splits)

lemma encode_events_rows:
  "encode_events tpb mll events es = Inr es' \<Longrightarrow>
   data_rows (enc_lines es') @ enc_chunk es' = data_rows (enc_lines es) @ enc_chunk es @ events"
proof (induction events arbitrary: es)
  case Nil
  then show ?case by simp
next
  case (Cons event events)
  then show ?case
    by (auto split: sum.splits dest!: encode_event_rows)
qed

lemma emit_basic_rows:
  assumes "emit_basic song voices voice_channels chord_policy tempo_mode tail_ticks max_line_len
             = Inr lines"
  shows "\<exists>events line_no.
           emit_events song voices voice_channels chord_policy tempo_mode tail_ticks = Inr events \<and>
           data_rows lines = events @ [sentinel voices] \<and>
           lines \<noteq> [] \<and> last lines = DataLine line_no [sentinel voices]"
  using assms
  by (auto simp: emit_basic_def Let_def data_rows_def split: sum.splits if_splits
      dest!: encode_events_rows)

lemma sentinel_fields:
  "sentinel voices ! 0 = - 1 \<and> list_all (\<lambda>v. v = 0) (drop 1 (sentinel voices)) \<and>
   length (sentinel voices) = 2 + 2 * voices"
  by (simp add: sentinel_def list_all_iff)

lemma no_sentinel_among_events:
  fixes events :: "int list list"
  shows "list_all (\<lambda>row. 0 \<le> row ! 0) events \<Longrightarrow> filter (\<lambda>row. row ! 0 = - 1) events = []"
  by (induction events) (auto simp: list_all_iff)

text \<open>
  C8. Whenever \<^verbatim>\<open>emit_basic\<close> returns, the rows of its \<^verbatim>\<open>DATA\<close> lines are the rows of
  \<^verbatim>\<open>events\<close> followed by the sentinel, which stands alone on the last line. The sentinel has
  the wait \<open>-1\<close> and every other field 0; every row before it has a wait of at least 0, so that
  the sentinel is the only row with the wait \<open>-1\<close>.
\<close>

theorem sentinel_terminates_rows:
  assumes "emit_basic song voices voice_channels chord_policy tempo_mode tail_ticks max_line_len
             = Inr lines"
  shows "data_rows lines \<noteq> [] \<and> last (data_rows lines) = sentinel voices \<and>
         (\<exists>line_no. last lines = DataLine line_no [sentinel voices]) \<and>
         sentinel voices ! 0 = - 1 \<and> list_all (\<lambda>v. v = 0) (drop 1 (sentinel voices)) \<and>
         emit_events song voices voice_channels chord_policy tempo_mode tail_ticks
           = Inr (butlast (data_rows lines)) \<and>
         list_all (\<lambda>row. 0 \<le> row ! 0) (butlast (data_rows lines)) \<and>
         filter (\<lambda>row. row ! 0 = - 1) (data_rows lines) = [sentinel voices]"
proof -
  from emit_basic_rows[OF assms] obtain events line_no where
    ev: "emit_events song voices voice_channels chord_policy tempo_mode tail_ticks = Inr events"
    and rows: "data_rows lines = events @ [sentinel voices]"
    and last: "last lines = DataLine line_no [sentinel voices]"
    by blast
  have wait: "list_all (\<lambda>row. 0 \<le> row ! 0) events"
    using ev by (rule emit_events_wait)
  have only: "filter (\<lambda>row. row ! 0 = - 1) (data_rows lines) = [sentinel voices]"
    unfolding rows using no_sentinel_among_events[OF wait] sentinel_fields[of voices] by simp
  show ?thesis
    using ev wait last only sentinel_fields[of voices] by (auto simp: rows)
qed

theorem sentinel_terminates_rows_witness:
  "emit_basic minimal_song 1 [0] ''high'' ''fixed'' 0 68 =
     Inr [DataLine 2010 [[0, 0, 262, 480], [480, 0, 330, 480], [480, 0, 0, 0]],
          DataLine 2020 [[- 1, 0, 0, 0]]] \<and>
   last (data_rows [DataLine 2010 [[0, 0, 262, 480], [480, 0, 330, 480], [480, 0, 0, 0]],
                    DataLine 2020 [[- 1, 0, 0, 0]]]) = sentinel 1 \<and>
   sentinel 1 = [- 1, 0, 0, 0] \<and>
   list_all (\<lambda>row. 0 \<le> row ! 0)
     (butlast (data_rows [DataLine 2010 [[0, 0, 262, 480], [480, 0, 330, 480], [480, 0, 0, 0]],
                          DataLine 2020 [[- 1, 0, 0, 0]]]))"
proof -
  have s: "sentinel 1 = [- 1, 0, 0, 0]"
    by (simp add: sentinel_def numeral_2_eq_2)
  from sentinel_terminates_rows[OF lines_minimal_song] lines_minimal_song s show ?thesis
    by blast
qed

section \<open>Note-off without an open note\<close>

lemma channel_status_below_F0:
  fixes x :: int
  assumes "x AND 0xF0 = 0x80 \<or> x AND 0xF0 = 0x90"
  shows "x \<noteq> 0xFF \<and> x \<noteq> 0xF0 \<and> x \<noteq> 0xF7"
  using assms by auto

lemma byte_status_below_F0:
  fixes b :: byte
  assumes "uint b AND 0xF0 = 0x80 \<or> uint b AND 0xF0 = 0x90"
  shows "uint b < 0xF0"
proof (rule ccontr)
  assume "\<not> uint b < 0xF0"
  moreover have "uint b < 256" using uint_bounded[of b] by simp
  ultimately have "uint b \<in> set [240..255]" by (simp add: upto_rec_numeral) arith
  then have "uint b AND 0xF0 = 0xF0"
    by (auto simp: upto_rec_numeral)
  with assms show False by simp
qed

lemma note_off_ignored:
  assumes "event_type = 0x80 \<or> (event_type = 0x90 \<and> data2 = 0)"
    and "map_of (st_active st) (chan, data1) = None \<or> map_of (st_active st) (chan, data1) = Some []"
  shows "note_event chan event_type data1 data2 st = st"
  using assms by (auto simp: note_event_def)

lemma dispatch_note_off_ignored:
  assumes off: "status AND 0xF0 = 0x80 \<or> (status AND 0xF0 = 0x90 \<and> uint (track ! (st_pos st + 1)) = 0)"
    and bytes: "st_pos st + 1 < length track"
    and closed: "map_of (st_active st) (status AND 0x0F, uint (track ! st_pos st)) = None \<or>
                 map_of (st_active st) (status AND 0x0F, uint (track ! st_pos st)) = Some []"
  shows "dispatch_event track status st = Inr (True, st\<lparr>st_pos := st_pos st + 2\<rparr>)"
proof -
  have ns: "status \<noteq> 0xFF \<and> status \<noteq> 0xF0 \<and> status \<noteq> 0xF7"
    using off by (intro channel_status_below_F0) auto
  have nt: "status AND 0xF0 \<noteq> 0xC0 \<and> status AND 0xF0 \<noteq> 0xD0"
    using off by auto
  have ne: "note_event (status AND 0x0F) (status AND 0xF0) (uint (track ! st_pos st))
              (uint (track ! (st_pos st + 1))) (st\<lparr>st_pos := st_pos st + 2\<rparr>)
            = st\<lparr>st_pos := st_pos st + 2\<rparr>"
    using off closed by (intro note_off_ignored) auto
  show ?thesis
    unfolding dispatch_event_def Let_def ne using ns nt bytes by simp
qed

lemma read_vlq_in_range: "read_vlq track pos = Inr (v, p) \<Longrightarrow> pos < length track"
  unfolding read_vlq_def by (subst (asm) read_vlq_loop.simps) (auto split: if_splits)

text \<open>
  C9. In the loop of a track, let the next event be a note-off, or a note-on with velocity 0,
  with its status byte written out or taken from the running status, on a key whose stack of
  open notes is missing or empty. Then the loop goes on from the same state, changed only in
  the position (behind the event), the tick (advanced by the delta time) and the running
  status: no error, no new note, no change of the open notes.
\<close>

theorem note_off_without_open_note_ignored:
  assumes vlq: "read_vlq track (st_pos st) = Inr (delta, p)"
    and status:
      "(0x80 \<le> uint (track ! p) \<and> status = uint (track ! p) \<and> q = p + 1) \<or>
       (uint (track ! p) < 0x80 \<and> st_running_status st = Some status \<and> q = p)"
    and off: "status AND 0xF0 = 0x80 \<or> (status AND 0xF0 = 0x90 \<and> uint (track ! (q + 1)) = 0)"
    and bytes: "q + 1 < length track"
    and closed: "map_of (st_active st) (status AND 0x0F, uint (track ! q)) = None \<or>
                 map_of (st_active st) (status AND 0x0F, uint (track ! q)) = Some []"
  shows "track_loop track st =
         track_loop track
           (st\<lparr>st_pos := q + 2, st_tick := st_tick st + delta, st_running_status := Some status\<rparr>)"
proof -
  have pos: "st_pos st < length track"
    using vlq by (rule read_vlq_in_range)
  have p: "p < length track"
    using status bytes by auto
  let ?st1 = "st\<lparr>st_pos := p, st_tick := st_tick st + delta\<rparr>"
  from status have ev: "track_event track st =
      Inr (True, st\<lparr>st_pos := q + 2, st_tick := st_tick st + delta,
                     st_running_status := Some status\<rparr>)"
  proof
    assume a: "0x80 \<le> uint (track ! p) \<and> status = uint (track ! p) \<and> q = p + 1"
    then have lt: "status < 0xF0"
      using off byte_status_below_F0[of "track ! p"] by auto
    let ?st2 = "?st1\<lparr>st_pos := p + 1, st_running_status := Some status\<rparr>"
    have "dispatch_event track status ?st2 = Inr (True, ?st2\<lparr>st_pos := st_pos ?st2 + 2\<rparr>)"
      using a off bytes closed by (intro dispatch_note_off_ignored) auto
    then show ?thesis
      using a lt p vlq by (simp add: track_event_def Let_def)
  next
    assume a: "uint (track ! p) < 0x80 \<and> st_running_status st = Some status \<and> q = p"
    have "dispatch_event track status ?st1 = Inr (True, ?st1\<lparr>st_pos := st_pos ?st1 + 2\<rparr>)"
      using a off bytes closed by (intro dispatch_note_off_ignored) auto
    moreover have "st\<lparr>st_pos := p + 2, st_tick := st_tick st + delta\<rparr> =
                   st\<lparr>st_pos := p + 2, st_tick := st_tick st + delta, st_running_status := Some status\<rparr>"
      using a by simp
    ultimately show ?thesis
      using a p vlq by (simp add: track_event_def Let_def)
  qed
  show ?thesis
    by (subst track_loop.simps) (simp add: pos ev)
qed

theorem note_off_without_open_note_ignored_witness:
  "read_vlq orphan_off_track (st_pos fresh_track_state) = Inr (0, 1) \<and>
   uint (orphan_off_track ! 1) AND 0xF0 = 0x80 \<and>
   map_of (st_active fresh_track_state) (uint (orphan_off_track ! 1) AND 0x0F, uint (orphan_off_track ! 2)) = None \<and>
   track_loop orphan_off_track fresh_track_state =
     track_loop orphan_off_track
       (fresh_track_state\<lparr>st_pos := 4, st_tick := 0, st_running_status := Some 0x80\<rparr>) \<and>
   track_loop orphan_off_track fresh_track_state =
     Inr (fresh_track_state\<lparr>st_pos := 8, st_running_status := Some 0x80\<rparr>)"
proof -
  have vlq: "read_vlq orphan_off_track (st_pos fresh_track_state) = Inr (0, 1)"
    by code_simp
  have fin: "track_loop orphan_off_track fresh_track_state =
     Inr (fresh_track_state\<lparr>st_pos := 8, st_running_status := Some 0x80\<rparr>)"
    by code_simp
  have "track_loop orphan_off_track fresh_track_state =
     track_loop orphan_off_track
       (fresh_track_state\<lparr>st_pos := 2 + 2, st_tick := st_tick fresh_track_state + 0, st_running_status := Some 0x80\<rparr>)"
    by (rule note_off_without_open_note_ignored[OF vlq, where q = 2 and status = "0x80"])
       (simp_all add: orphan_off_track_def fresh_track_state_def)
  then show ?thesis
    using vlq fin by (simp add: orphan_off_track_def fresh_track_state_def)
qed

section \<open>Tempo and time signature events\<close>

lemma read_vlq_loop_error:
  "read_vlq_loop data offset val = Inl e \<Longrightarrow> e = MidiParseError ''Unexpected EOF while reading VLQ''"
proof (induction data offset val rule: read_vlq_loop.induct)
  case (1 data offset val)
  from "1.prems" show ?case
    by (subst (asm) read_vlq_loop.simps)
       (auto simp: Let_def split: if_splits dest!: "1.IH"[OF _ refl refl refl])
qed

lemma read_vlq_error: "read_vlq data offset \<noteq> Inl ZeroDivisionError"
  unfolding read_vlq_def using read_vlq_loop_error by fastforce

lemma meta_event_no_zero_division: "meta_event track st \<noteq> Inl ZeroDivisionError"
  using read_vlq_error
  by (auto simp: meta_event_def Let_def py_truediv_def split: sum.splits if_splits)

lemma sysex_event_no_zero_division: "sysex_event track st \<noteq> Inl ZeroDivisionError"
  using read_vlq_error by (auto simp: sysex_event_def split: sum.splits)

lemma dispatch_event_no_zero_division: "dispatch_event track status st \<noteq> Inl ZeroDivisionError"
  using meta_event_no_zero_division sysex_event_no_zero_division
  by (auto simp: dispatch_event_def Let_def)

lemma track_event_no_zero_division: "track_event track st \<noteq> Inl ZeroDivisionError"
  using read_vlq_error dispatch_event_no_zero_division
  by (auto simp: track_event_def Let_def split: sum.splits option.splits)

lemma track_loop_no_zero_division: "track_loop track st \<noteq> Inl ZeroDivisionError"
proof (induction track st rule: track_loop.induct)
  case (1 track st)
  show ?case
    using track_event_no_zero_division[of track st] "1.IH"
    by (subst track_loop.simps) (auto split: sum.splits)
qed

lemma parse_track_no_zero_division: "parse_track data fs \<noteq> Inl ZeroDivisionError"
  using track_loop_no_zero_division
  by (auto simp: parse_track_def unpack_I_def Let_def split: sum.splits if_splits)

lemma parse_tracks_no_zero_division: "parse_tracks n data fs \<noteq> Inl ZeroDivisionError"
  using parse_track_no_zero_division
  by (induction n arbitrary: fs) (auto split: sum.splits)

lemma parse_midi_no_zero_division: "parse_midi data \<noteq> Inl ZeroDivisionError"
  using parse_tracks_no_zero_division
  by (auto simp: parse_midi_def unpack_I_def unpack_HHH_def split: sum.splits if_splits)

text \<open>
  C10. A tempo event (type 0x51, three payload bytes) whose value is 0 leaves the state as it
  is but for the position: the list of tempos does not grow and nothing is raised. The
  division is behind the test \<^verbatim>\<open>us_per_quarter > 0\<close>, and no input makes the decoder raise
  \<^verbatim>\<open>ZeroDivisionError\<close>.
\<close>

theorem zero_tempo_ignored:
  assumes "st_pos st < length track" and "uint (track ! st_pos st) = 0x51"
    and "read_vlq track (st_pos st + 1) = Inr (3, p)" and "p + 3 \<le> length track"
    and "push_bit 16 (uint (track ! p)) OR push_bit 8 (uint (track ! (p + 1)))
           OR uint (track ! (p + 2)) = 0"
  shows "meta_event track st = Inr (True, st\<lparr>st_pos := p + 3\<rparr>) \<and>
         (\<forall>data. parse_midi data \<noteq> Inl ZeroDivisionError)"
  using assms parse_midi_no_zero_division
  by (simp add: meta_event_def Let_def min_absorb2)

theorem zero_tempo_ignored_witness:
  "read_vlq zero_tempo_track 3 = Inr (3, 4) \<and>
   meta_event zero_tempo_track (fresh_track_state\<lparr>st_pos := 2\<rparr>) =
     Inr (True, fresh_track_state\<lparr>st_pos := 7\<rparr>) \<and>
   track_loop zero_tempo_track fresh_track_state = Inr (fresh_track_state\<lparr>st_pos := 11\<rparr>)"
proof -
  have vlq: "read_vlq zero_tempo_track (st_pos (fresh_track_state\<lparr>st_pos := 2\<rparr>) + 1) = Inr (3, 4)"
    by code_simp
  have fin: "track_loop zero_tempo_track fresh_track_state = Inr (fresh_track_state\<lparr>st_pos := 11\<rparr>)"
    by code_simp
  have "meta_event zero_tempo_track (fresh_track_state\<lparr>st_pos := 2\<rparr>) =
          Inr (True, fresh_track_state\<lparr>st_pos := 2, st_pos := 4 + 3\<rparr>) \<and>
        (\<forall>data. parse_midi data \<noteq> Inl ZeroDivisionError)"
    by (rule zero_tempo_ignored[OF _ _ vlq]) (simp_all add: zero_tempo_track_def)
  then show ?thesis
    using vlq fin by simp
qed

text \<open>
  C5 (as amended). A time signature event (type 0x58) with at least two payload bytes sets the
  numerator to \<^verbatim>\<open>max(1, payload[0])\<close> and the denominator to \<^verbatim>\<open>2 ** payload[1]\<close>, whatever
  the bytes are: a numerator byte 0 gives the numerator 1, and no payload gives back 4/4 by
  default (the test \<^verbatim>\<open>denominator > 0\<close> never fails).
\<close>

theorem time_signature_decoded:
  assumes "st_pos st < length track" and "uint (track ! st_pos st) = 0x58"
    and "read_vlq track (st_pos st + 1) = Inr (len, p)"
    and "2 \<le> len" and "p + 2 \<le> length track"
  shows "meta_event track st =
           Inr (True, st\<lparr>st_pos := p + nat len,
                          st_time_signature :=
                            \<lparr>numerator = max 1 (uint (track ! p)),
                             denominator = 2 ^ nat (uint (track ! (p + 1)))\<rparr>\<rparr>)"
proof -
  have "2 \<le> nat len" "2 \<le> length track - p"
    using assms by auto
  then show ?thesis
    using assms by (simp add: meta_event_def Let_def)
qed

theorem time_signature_decoded_witness:
  "read_vlq time_signature_track 3 = Inr (4, 4) \<and>
   meta_event time_signature_track (fresh_track_state\<lparr>st_pos := 2\<rparr>) =
     Inr (True, fresh_track_state\<lparr>st_pos := 8,
                  st_time_signature := \<lparr>numerator = 1, denominator = 4\<rparr>\<rparr>)"
proof -
  have vlq: "read_vlq time_signature_track (st_pos (fresh_track_state\<lparr>st_pos := 2\<rparr>) + 1) = Inr (4, 4)"
    by code_simp
  have "meta_event time_signature_track (fresh_track_state\<lparr>st_pos := 2\<rparr>) =
           Inr (True, fresh_track_state\<lparr>st_pos := 2, st_pos := 4 + nat 4,
                  st_time_signature :=
                    \<lparr>numerator = max 1 (uint (time_signature_track ! 4)),
                     denominator = 2 ^ nat (uint (time_signature_track ! (4 + 1)))\<rparr>\<rparr>)"
    by (rule time_signature_decoded[OF _ _ vlq]) (simp_all add: time_signature_track_def)
  then show ?thesis
    using vlq by (simp add: time_signature_track_def)
qed

text \<open>The file with the numerator byte 0 and the denominator byte 2 decodes to 1/4, not to the
  4/4 that C5 states.\<close>

theorem time_signature_default_counterexample:
  "map_sum id time_signature (parse_midi zero_numerator_file) =
     Inr \<lparr>numerator = 1, denominator = 4\<rparr> \<and>
   map_sum id time_signature (parse_midi zero_numerator_file) \<noteq>
     Inr \<lparr>numerator = 4, denominator = 4\<rparr>"
proof -
  have "parse_midi zero_numerator_file =
     Inr \<lparr>ppqn = 480,
          song_notes = [\<lparr>start_tick = 0, NoteEvent.end_tick = 96, channel = 0, pitch = 60, velocity = 64\<rparr>],
          tempos = [\<lparr>tick = 0, bpm = 120\<rparr>],
          time_signature = \<lparr>numerator = 1, denominator = 4\<rparr>, end_tick = 96\<rparr>"
    by code_simp
  then show ?thesis by simp
qed

section \<open>Note stacking\<close>





section \<open>Declared lengths beyond the buffer\<close>

lemma track_loop_at_end: "length track \<le> st_pos st \<Longrightarrow> track_loop track st = Inr st"
  by (subst track_loop.simps) simp

lemma meta_event_end:
  "meta_event track st = Inr (continue, st') \<Longrightarrow> read_vlq track (st_pos st + 1) = Inr (len, p) \<Longrightarrow>
   st_pos st' = p + nat len"
  by (auto simp: meta_event_def Let_def split: if_splits sum.splits)

lemma meta_event_succeeds:
  assumes "st_pos st < length track" and "read_vlq track (st_pos st + 1) = Inr (len, p)"
  shows "\<exists>continue st'. meta_event track st = Inr (continue, st')"
proof (cases "meta_event track st")
  case (Inl e)
  with assms show ?thesis
    by (auto simp: meta_event_def Let_def py_truediv_def split: if_splits)
next
  case (Inr r)
  then show ?thesis
    by (cases r) simp
qed

lemma meta_event_keeps:
  "meta_event track st = Inr (continue, st') \<Longrightarrow>
   st_tick st' = st_tick st \<and> st_notes st' = st_notes st \<and> st_active st' = st_active st"
  by (auto simp: meta_event_def Let_def split: if_splits sum.splits)

lemma parse_track_overlong:
  assumes "slice data (fs_offset fs) 4 = MTrk"
    and "unpack_I data (fs_offset fs + 4) = Inr track_len"
    and "length data < fs_offset fs + 8 + nat track_len"
  shows "parse_track data fs =
           (case track_loop (drop (fs_offset fs + 8) data)
                   \<lparr>st_pos = 0, st_tick = 0, st_running_status = None, st_active = [],
                    st_notes = fs_notes fs, st_tempos = fs_tempos fs,
                    st_time_signature = fs_time_signature fs\<rparr> of
              Inl e \<Rightarrow> Inl e
            | Inr st \<Rightarrow>
                Inr \<lparr>fs_offset = fs_offset fs + 8 + nat track_len,
                     fs_notes = st_notes st @ close_active (st_tick st) (st_active st),
                     fs_tempos = st_tempos st,
                     fs_time_signature = st_time_signature st,
                     fs_song_end_tick = max (fs_song_end_tick fs) (st_tick st)\<rparr>)"
proof -
  have "slice data (fs_offset fs + 8) (nat track_len) = drop (fs_offset fs + 8) data"
    using assms(3) by (simp add: slice_def)
  then show ?thesis
    using assms(1,2) by (simp add: parse_track_def Let_def)
qed

lemma track_loop_overlong_sysex:
  assumes vlq: "read_vlq track (st_pos st) = Inr (delta, p)" and p: "p < length track"
    and status: "uint (track ! p) = 0xF0 \<or> uint (track ! p) = 0xF7"
    and len: "read_vlq track (p + 1) = Inr (len, q)" and over: "length track < q + nat len"
  shows "track_loop track st = Inr (st\<lparr>st_pos := q + nat len, st_tick := st_tick st + delta\<rparr>)"
proof -
  have pos: "st_pos st < length track"
    using vlq by (rule read_vlq_in_range)
  have ev: "track_event track st =
              Inr (True, st\<lparr>st_pos := q + nat len, st_tick := st_tick st + delta\<rparr>)"
    using vlq p status len
    by (auto simp: track_event_def dispatch_event_def sysex_event_def Let_def)
  have "track_loop track st =
          track_loop track (st\<lparr>st_pos := q + nat len, st_tick := st_tick st + delta\<rparr>)"
    by (subst track_loop.simps) (simp add: pos ev)
  also have "\<dots> = Inr (st\<lparr>st_pos := q + nat len, st_tick := st_tick st + delta\<rparr>)"
    using over by (intro track_loop_at_end) simp
  finally show ?thesis .
qed

lemma track_loop_overlong_meta:
  assumes vlq: "read_vlq track (st_pos st) = Inr (delta, p)" and p: "p + 1 < length track"
    and status: "uint (track ! p) = 0xFF"
    and len: "read_vlq track (p + 2) = Inr (len, q)" and over: "length track < q + nat len"
  shows "\<exists>st'. track_loop track st = Inr st' \<and> st_pos st' = q + nat len \<and>
           st_tick st' = st_tick st + delta \<and> st_notes st' = st_notes st \<and>
           st_active st' = st_active st"
proof -
  have pos: "st_pos st < length track"
    using vlq by (rule read_vlq_in_range)
  have "\<exists>st2. track_event track st = meta_event track st2 \<and> st_pos st2 = p + 1 \<and>
          st_tick st2 = st_tick st + delta \<and> st_notes st2 = st_notes st \<and>
          st_active st2 = st_active st"
    using vlq p status
    apply (simp add: track_event_def dispatch_event_def Let_def)
    apply (rule exI, rule conjI, rule refl)
    apply simp
    done
  then obtain st2 where ev: "track_event track st = meta_event track st2"
    and st2: "st_pos st2 = p + 1" "st_tick st2 = st_tick st + delta"
      "st_notes st2 = st_notes st" "st_active st2 = st_active st"
    by blast
  have len2: "read_vlq track (st_pos st2 + 1) = Inr (len, q)"
    using len by (simp add: st2)
  have "st_pos st2 < length track"
    using p by (simp add: st2)
  from meta_event_succeeds[OF this len2]
  obtain continue st' where m: "meta_event track st2 = Inr (continue, st')"
    by blast
  have e: "st_pos st' = q + nat len"
    using m len2 by (rule meta_event_end)
  have k: "st_tick st' = st_tick st + delta \<and> st_notes st' = st_notes st \<and>
           st_active st' = st_active st"
    using meta_event_keeps[OF m] by (simp add: st2)
  have "track_loop track st' = Inr st'"
    using over e by (intro track_loop_at_end) simp
  then have "track_loop track st = Inr st'"
    by (subst track_loop.simps) (simp add: pos ev m)
  with e k show ?thesis
    by blast
qed

text \<open>
  C3 (as amended). No declared length is checked against the bytes that remain, and none is
  an error by itself. A track chunk that declares more bytes than the buffer has left is
  decoded with the bytes left as its body: its result is that of the event loop on them. In
  the event loop, a system-exclusive or a meta event that declares more payload bytes than
  the track has left is accepted, with the payload cut at the end of the track, and the loop
  ends there without an error, behind the end of the track.
\<close>

theorem declared_length_not_checked:
  "(slice data (fs_offset fs) 4 = MTrk \<and> unpack_I data (fs_offset fs + 4) = Inr track_len \<and>
      length data < fs_offset fs + 8 + nat track_len \<longrightarrow>
      parse_track data fs =
        (case track_loop (drop (fs_offset fs + 8) data)
                \<lparr>st_pos = 0, st_tick = 0, st_running_status = None, st_active = [],
                 st_notes = fs_notes fs, st_tempos = fs_tempos fs,
                 st_time_signature = fs_time_signature fs\<rparr> of
           Inl e \<Rightarrow> Inl e
         | Inr st \<Rightarrow>
             Inr \<lparr>fs_offset = fs_offset fs + 8 + nat track_len,
                  fs_notes = st_notes st @ close_active (st_tick st) (st_active st),
                  fs_tempos = st_tempos st,
                  fs_time_signature = st_time_signature st,
                  fs_song_end_tick = max (fs_song_end_tick fs) (st_tick st)\<rparr>)) \<and>
   (read_vlq track (st_pos st) = Inr (delta, p) \<and> p < length track \<and>
      (uint (track ! p) = 0xF0 \<or> uint (track ! p) = 0xF7) \<and>
      read_vlq track (p + 1) = Inr (len, q) \<and> length track < q + nat len \<longrightarrow>
      track_loop track st = Inr (st\<lparr>st_pos := q + nat len, st_tick := st_tick st + delta\<rparr>)) \<and>
   (read_vlq mtrack (st_pos mst) = Inr (mdelta, mp) \<and> mp + 1 < length mtrack \<and>
      uint (mtrack ! mp) = 0xFF \<and> read_vlq mtrack (mp + 2) = Inr (mlen, mq) \<and>
      length mtrack < mq + nat mlen \<longrightarrow>
      (\<exists>st'. track_loop mtrack mst = Inr st' \<and> st_pos st' = mq + nat mlen \<and>
         st_tick st' = st_tick mst + mdelta \<and> st_notes st' = st_notes mst \<and>
         st_active st' = st_active mst))"
proof (intro conjI impI)
  assume a: "slice data (fs_offset fs) 4 = MTrk \<and> unpack_I data (fs_offset fs + 4) = Inr track_len \<and>
      length data < fs_offset fs + 8 + nat track_len"
  show "parse_track data fs =
        (case track_loop (drop (fs_offset fs + 8) data)
                \<lparr>st_pos = 0, st_tick = 0, st_running_status = None, st_active = [],
                 st_notes = fs_notes fs, st_tempos = fs_tempos fs,
                 st_time_signature = fs_time_signature fs\<rparr> of
           Inl e \<Rightarrow> Inl e
         | Inr st \<Rightarrow>
             Inr \<lparr>fs_offset = fs_offset fs + 8 + nat track_len,
                  fs_notes = st_notes st @ close_active (st_tick st) (st_active st),
                  fs_tempos = st_tempos st,
                  fs_time_signature = st_time_signature st,
                  fs_song_end_tick = max (fs_song_end_tick fs) (st_tick st)\<rparr>)"
    by (rule parse_track_overlong) (use a in blast)+
next
  assume a: "read_vlq track (st_pos st) = Inr (delta, p) \<and> p < length track \<and>
      (uint (track ! p) = 0xF0 \<or> uint (track ! p) = 0xF7) \<and>
      read_vlq track (p + 1) = Inr (len, q) \<and> length track < q + nat len"
  show "track_loop track st = Inr (st\<lparr>st_pos := q + nat len, st_tick := st_tick st + delta\<rparr>)"
    by (rule track_loop_overlong_sysex) (use a in blast)+
next
  assume a: "read_vlq mtrack (st_pos mst) = Inr (mdelta, mp) \<and> mp + 1 < length mtrack \<and>
      uint (mtrack ! mp) = 0xFF \<and> read_vlq mtrack (mp + 2) = Inr (mlen, mq) \<and>
      length mtrack < mq + nat mlen"
  show "\<exists>st'. track_loop mtrack mst = Inr st' \<and> st_pos st' = mq + nat mlen \<and>
         st_tick st' = st_tick mst + mdelta \<and> st_notes st' = st_notes mst \<and>
         st_active st' = st_active mst"
    by (rule track_loop_overlong_meta) (use a in blast)+
qed

theorem declared_length_not_checked_witness:
  "slice overlong_chunk_file 14 4 = MTrk \<and> unpack_I overlong_chunk_file 18 = Inr 1000 \<and>
   length overlong_chunk_file < 14 + 8 + nat 1000 \<and>
   parse_track overlong_chunk_file first_chunk_state =
     Inr \<lparr>fs_offset = 1022, fs_notes = [n60, n64], fs_tempos = [\<lparr>tick = 0, bpm = 120\<rparr>],
          fs_time_signature = \<lparr>numerator = 4, denominator = 4\<rparr>, fs_song_end_tick = 960\<rparr> \<and>
   read_vlq overlong_sysex_track 2 = Inr (10, 3) \<and> length overlong_sysex_track < 3 + nat 10 \<and>
   track_loop overlong_sysex_track fresh_track_state = Inr (fresh_track_state\<lparr>st_pos := 13\<rparr>) \<and>
   read_vlq overlong_meta_track 3 = Inr (10, 4) \<and> length overlong_meta_track < 4 + nat 10 \<and>
   track_loop overlong_meta_track fresh_track_state = Inr (fresh_track_state\<lparr>st_pos := 14\<rparr>)"
proof -
  have c: "slice overlong_chunk_file (fs_offset first_chunk_state) 4 = MTrk"
    "unpack_I overlong_chunk_file (fs_offset first_chunk_state + 4) = Inr 1000"
    "length overlong_chunk_file < fs_offset first_chunk_state + 8 + nat 1000"
    by code_simp+
  have c': "slice overlong_chunk_file 14 4 = MTrk" "unpack_I overlong_chunk_file 18 = Inr 1000"
    "length overlong_chunk_file < 14 + 8 + nat 1000"
    by code_simp+
  have cl: "track_loop (drop 22 overlong_chunk_file)
              \<lparr>st_pos = 0, st_tick = 0, st_running_status = None, st_active = [],
               st_notes = [], st_tempos = [],
               st_time_signature = \<lparr>numerator = 4, denominator = 4\<rparr>\<rparr> =
            Inr \<lparr>st_pos = 37, st_tick = 960, st_running_status = Some 0x80, st_active = [((0, 60), []), ((0, 64), [])],
                 st_notes = [n60, n64], st_tempos = [\<lparr>tick = 0, bpm = 120\<rparr>],
                 st_time_signature = \<lparr>numerator = 4, denominator = 4\<rparr>\<rparr>"
    by code_simp
  have s: "read_vlq overlong_sysex_track (st_pos fresh_track_state) = Inr (0, 1)"
    "1 < length overlong_sysex_track"
    "uint (overlong_sysex_track ! 1) = 0xF0 \<or> uint (overlong_sysex_track ! 1) = 0xF7"
    "read_vlq overlong_sysex_track (1 + 1) = Inr (10, 3)"
    "length overlong_sysex_track < 3 + nat 10"
    by code_simp+
  have s': "read_vlq overlong_sysex_track 2 = Inr (10, 3)"
    by code_simp
  have m: "read_vlq overlong_meta_track (st_pos fresh_track_state) = Inr (0, 1)"
    "1 + 1 < length overlong_meta_track"
    "uint (overlong_meta_track ! 1) = 0xFF"
    "read_vlq overlong_meta_track (1 + 2) = Inr (10, 4)"
    "length overlong_meta_track < 4 + nat 10"
    by code_simp+
  have m': "read_vlq overlong_meta_track 3 = Inr (10, 4)"
    by code_simp
  have ml: "track_loop overlong_meta_track fresh_track_state = Inr (fresh_track_state\<lparr>st_pos := 14\<rparr>)"
    by code_simp
  note t = declared_length_not_checked[where data = overlong_chunk_file
      and fs = first_chunk_state and track_len = 1000
      and track = overlong_sysex_track and st = fresh_track_state and delta = 0 and p = 1
      and len = 10 and q = 3
      and mtrack = overlong_meta_track and mst = fresh_track_state and mdelta = 0 and mp = 1
      and mlen = 10 and mq = 4]
  have chunk: "parse_track overlong_chunk_file first_chunk_state =
     Inr \<lparr>fs_offset = 1022, fs_notes = [n60, n64], fs_tempos = [\<lparr>tick = 0, bpm = 120\<rparr>],
          fs_time_signature = \<lparr>numerator = 4, denominator = 4\<rparr>, fs_song_end_tick = 960\<rparr>"
    using t c by (simp add: cl close_active_def first_chunk_state_def)
  have sysex: "track_loop overlong_sysex_track fresh_track_state = Inr (fresh_track_state\<lparr>st_pos := 13\<rparr>)"
    using t s by (simp add: fresh_track_state_def)
  from chunk sysex ml c' s' s(5) m' m(5) show ?thesis
    by simp
qed

text \<open>The three files decode, to the song of the minimal file: none of the declared lengths
  that go beyond the buffer is an error.\<close>

theorem truncated_lengths_counterexample:
  "unpack_I overlong_chunk_file 18 = Inr 1000 \<and> length overlong_chunk_file - 22 = 37 \<and>
   parse_midi overlong_chunk_file = Inr minimal_song \<and>
   parse_midi overlong_meta_file = Inr minimal_song \<and>
   parse_midi overlong_sysex_file = Inr minimal_song"
  by code_simp

section \<open>The chosen channels\<close>

lemma unused_channels_length:
  "16 - length xs \<le> length (filter (\<lambda>ch. ch \<notin> set xs) [0..15::int])"
proof -
  have "length (filter (\<lambda>ch. ch \<in> set xs) [0..15::int]) = card ({ch. ch \<in> set xs} \<inter> set [0..15])"
    by (rule distinct_length_filter) simp
  also have "\<dots> \<le> card (set xs)"
    by (intro card_mono) auto
  also have "\<dots> \<le> length xs"
    by (rule card_length)
  finally have "length (filter (\<lambda>ch. ch \<in> set xs) [0..15::int]) \<le> length xs" .
  moreover have "length (filter (\<lambda>ch. ch \<in> set xs) [0..15::int]) +
      length (filter (\<lambda>ch. \<not> ch \<in> set xs) [0..15::int]) = 16"
    using sum_length_filter_compl[of "\<lambda>ch. ch \<in> set xs" "[0..15::int]"] by simp
  ultimately show ?thesis
    by simp
qed

lemma distinct_map_insort_key:
  "distinct (map g (insort_key f x xs)) = (g x \<notin> g ` set xs \<and> distinct (map g xs))"
  by (induction xs) (auto simp: set_insort_key)

lemma distinct_map_sort_key: "distinct (map g (sort_key f xs)) = distinct (map g xs)"
  by (induction xs) (auto simp: distinct_map_insort_key)

lemma count_channel_keys:
  "distinct (map fst m) \<Longrightarrow> distinct (map fst (fold count_channel nts m))"
  by (induction nts arbitrary: m) (auto simp: count_channel_def distinct_update)

lemma ranked_distinct:
  "distinct (map fst (sort_key f (fold count_channel nts [])))"
  using count_channel_keys[of "[]" nts] by (simp add: distinct_map_sort_key)

lemma parse_channel_parts_range:
  "parse_channel_parts to_int parts channels = Inr chans \<Longrightarrow>
   list_all (\<lambda>ch. 0 \<le> ch \<and> ch \<le> 15) channels \<Longrightarrow>
   list_all (\<lambda>ch. 0 \<le> ch \<and> ch \<le> 15) chans"
  by (induction to_int parts channels rule: parse_channel_parts.induct)
     (auto simp: Let_def split: if_splits option.splits)

lemma parse_channel_list_range:
  "parse_channel_list to_int raw = Inr (Some chans) \<Longrightarrow>
   list_all (\<lambda>ch. 0 \<le> ch \<and> ch \<le> 15) chans"
  by (auto simp: parse_channel_list_def split: option.splits sum.splits if_splits
      dest!: parse_channel_parts_range)

text \<open>
  C4 (as amended). For a voice count of at most 16 (the command line allows 1 to 4) the
  selector returns exactly that many channels. They are pairwise distinct exactly when the
  explicit list, cut to the voice count, is: always in automatic mode, and in explicit mode
  unless the list repeats a channel among its first entries. A repeated channel is not
  rejected (\<^verbatim>\<open>parse_channel_list\<close> checks the range 1 to 16 only) but kept as it is.
\<close>

theorem choose_voice_channels_count_and_distinct:
  assumes "voices \<le> 16"
  shows "length (choose_voice_channels nts voices explicit) = voices \<and>
         distinct (choose_voice_channels nts voices explicit) =
           (case explicit of None \<Rightarrow> True | Some chans \<Rightarrow> distinct (take voices chans))"
proof -
  define ranked where
    "ranked = map fst (sort_key (\<lambda>(ch, cnt). (- cnt, ch)) (fold count_channel nts []))"
  have rd: "distinct ranked"
    unfolding ranked_def by (rule ranked_distinct)
  define auto_choice where
    "auto_choice =
       (if ranked = [] then map int [0..<voices]
        else take voices
               (if length ranked < voices
                then ranked @ filter (\<lambda>ch. ch \<notin> set ranked) [0..15]
                else ranked))"
  have auto_len: "length auto_choice = voices"
    using unused_channels_length[of ranked] assms by (auto simp: auto_choice_def)
  have auto_dist: "distinct auto_choice"
    using rd by (auto simp: auto_choice_def distinct_map inj_on_def dest: in_set_takeD intro!: distinct_take)
  show ?thesis
  proof (cases explicit)
    case None
    then have "choose_voice_channels nts voices explicit = auto_choice"
      by (simp add: choose_voice_channels_def auto_choice_def ranked_def Let_def)
    with None auto_len auto_dist show ?thesis by simp
  next
    case (Some chans)
    show ?thesis
    proof (cases chans)
      case Nil
      with Some have "choose_voice_channels nts voices explicit = auto_choice"
        by (simp add: choose_voice_channels_def auto_choice_def ranked_def Let_def)
      with Some Nil auto_len auto_dist show ?thesis by simp
    next
      case (Cons e es)
      define chosen where "chosen = take voices chans"
      have c: "choose_voice_channels nts voices explicit =
                 (if length chosen < voices
                  then chosen @ take (voices - length chosen) (filter (\<lambda>ch. ch \<notin> set chosen) [0..15])
                  else chosen)"
        using Some Cons by (simp add: choose_voice_channels_def chosen_def Let_def)
      have len: "length (choose_voice_channels nts voices explicit) = voices"
        using unused_channels_length[of chosen] assms unfolding c
        by (auto simp: chosen_def)
      have dist: "distinct (choose_voice_channels nts voices explicit) = distinct chosen"
        unfolding c by (auto dest: in_set_takeD intro!: distinct_take)
      from len dist Some show ?thesis
        by (simp add: chosen_def)
    qed
  qed
qed

theorem choose_voice_channels_count_and_distinct_witness:
  "(4::nat) \<le> 16 \<and>
   choose_voice_channels [n60, n64] 4 (Some [2, 1]) = [2, 1, 0, 3] \<and>
   length (choose_voice_channels [n60, n64] 4 (Some [2, 1])) = 4 \<and>
   distinct (choose_voice_channels [n60, n64] 4 (Some [2, 1]))"
proof -
  have v: "(4::nat) \<le> 16" by simp
  have e: "choose_voice_channels [n60, n64] 4 (Some [2, 1]) = [2, 1, 0, 3]"
    by code_simp
  from choose_voice_channels_count_and_distinct[OF v, of "[n60, n64]" "Some [2, 1]"] e
  show ?thesis by simp
qed

text \<open>The channel list \<^verbatim>\<open>"1,1"\<close> is read as \<open>[0, 0]\<close>, and the selection for two voices is then
  \<open>[0, 0]\<close>: the same channel twice, and no error.\<close>

theorem duplicate_channels_counterexample:
  "parse_channel_list (\<lambda>token. if token = ''1'' then Some 1 else None) (Some ''1,1'') =
     Inr (Some [0, 0]) \<and>
   choose_voice_channels [n60, n64] 2 (Some [0, 0]) = [0, 0] \<and>
   \<not> distinct (choose_voice_channels [n60, n64] 2 (Some [0, 0]))"
proof -
  have p: "parse_channel_list (\<lambda>token. if token = ''1'' then Some 1 else None) (Some ''1,1'') =
     Inr (Some [0, 0])"
    by (simp add: parse_channel_list_def strip_def is_space_def)
  have c: "choose_voice_channels [n60, n64] 2 (Some [0, 0]) = [0, 0]"
    by code_simp
  show ?thesis
    unfolding c using p by simp
qed

section \<open>The chord policy\<close>

text \<open>The entry of a tick depends on the notes of the channel that start at this tick, and on
  nothing else.\<close>

lemma onset_step_other:
  "\<not> (channel n = chan \<and> start_tick n = T) \<Longrightarrow>
   map_of (onset_step chan pol n onsets) T = map_of onsets T"
  by (auto simp: onset_step_def Let_def update_conv' split: option.splits)

lemma onset_step_cong:
  "map_of onsets T = map_of onsets' T \<Longrightarrow> start_tick n = T \<Longrightarrow>
   map_of (onset_step chan pol n onsets) T = map_of (onset_step chan pol n onsets') T"
  by (auto simp: onset_step_def Let_def update_conv' split: option.splits)

lemma fold_onset_step_filter:
  "map_of onsets T = map_of onsets' T \<Longrightarrow>
   map_of (fold (onset_step chan pol) nts onsets) T =
   map_of (fold (onset_step chan pol)
             (filter (\<lambda>n. channel n = chan \<and> start_tick n = T) nts) onsets') T"
proof (induction nts arbitrary: onsets onsets')
  case Nil
  then show ?case by simp
next
  case (Cons n nts)
  show ?case
  proof (cases "channel n = chan \<and> start_tick n = T")
    case True
    then show ?thesis
      using Cons.prems by (auto intro!: Cons.IH onset_step_cong)
  next
    case False
    then have "map_of (onset_step chan pol n onsets) T = map_of onsets' T"
      using Cons.prems by (simp add: onset_step_other)
    then show ?thesis
      using False by (auto intro!: Cons.IH)
  qed
qed

lemma select_at_tick:
  "map_of (select_monophonic_onsets nts chan pol) T =
   map_of (fold (onset_step chan pol)
             (sort_key (\<lambda>n. (start_tick n, NoteEvent.end_tick n, pitch n))
                (filter (\<lambda>n. channel n = chan \<and> start_tick n = T) nts)) []) T"
  unfolding select_monophonic_onsets_def
  by (subst fold_onset_step_filter[where onsets' = "[]"]) (simp_all add: filter_sort)

lemma high_keeps_highest:
  "\<forall>n\<in>set ys. channel n = chan \<and> start_tick n = T \<Longrightarrow> map_of onsets T = Some e \<Longrightarrow>
   \<exists>m. map_of (fold (onset_step chan ''high'') ys onsets) T = Some m \<and>
       (m = e \<or> m \<in> set ys) \<and> pitch e \<le> pitch m \<and> (\<forall>y\<in>set ys. pitch y \<le> pitch m)"
proof (induction ys arbitrary: onsets e)
  case Nil
  then show ?case by simp
next
  case (Cons y ys)
  define e' where "e' = (if pitch e < pitch y then y else e)"
  have "map_of (onset_step chan ''high'' y onsets) T = Some e'"
    using Cons.prems by (auto simp: onset_step_def Let_def update_conv' e'_def)
  from Cons.IH[OF _ this] Cons.prems(1)
  obtain m where "map_of (fold (onset_step chan ''high'') ys (onset_step chan ''high'' y onsets)) T = Some m"
    "m = e' \<or> m \<in> set ys" "pitch e' \<le> pitch m" "\<forall>y\<in>set ys. pitch y \<le> pitch m"
    by auto
  then show ?case
    by (auto simp: e'_def split: if_splits)
qed

lemma low_keeps_lowest:
  "\<forall>n\<in>set ys. channel n = chan \<and> start_tick n = T \<Longrightarrow> map_of onsets T = Some e \<Longrightarrow>
   \<exists>m. map_of (fold (onset_step chan ''low'') ys onsets) T = Some m \<and>
       (m = e \<or> m \<in> set ys) \<and> pitch m \<le> pitch e \<and> (\<forall>y\<in>set ys. pitch m \<le> pitch y)"
proof (induction ys arbitrary: onsets e)
  case Nil
  then show ?case by simp
next
  case (Cons y ys)
  define e' where "e' = (if pitch y < pitch e then y else e)"
  have "map_of (onset_step chan ''low'' y onsets) T = Some e'"
    using Cons.prems by (auto simp: onset_step_def Let_def update_conv' e'_def)
  from Cons.IH[OF _ this] Cons.prems(1)
  obtain m where "map_of (fold (onset_step chan ''low'') ys (onset_step chan ''low'' y onsets)) T = Some m"
    "m = e' \<or> m \<in> set ys" "pitch m \<le> pitch e'" "\<forall>y\<in>set ys. pitch m \<le> pitch y"
    by auto
  then show ?case
    by (auto simp: e'_def split: if_splits)
qed

lemma first_keeps_first:
  "\<forall>n\<in>set ys. channel n = chan \<and> start_tick n = T \<Longrightarrow> map_of onsets T = Some e \<Longrightarrow>
   map_of (fold (onset_step chan ''first'') ys onsets) T = Some e"
proof (induction ys arbitrary: onsets)
  case Nil
  then show ?case by simp
next
  case (Cons y ys)
  have "map_of (onset_step chan ''first'' y onsets) T = Some e"
    using Cons.prems by (auto simp: onset_step_def Let_def)
  from Cons.IH[OF _ this] Cons.prems(1) show ?case
    by simp
qed

lemma first_step:
  "channel y = chan \<and> start_tick y = T \<Longrightarrow> map_of (onset_step chan pol y []) T = Some y"
  by (simp add: onset_step_def)

text \<open>
  C6 (as amended). Let exactly three notes of a channel start at the tick \<open>T\<close>, with the
  pitches 60, 64 and 67, among any other notes. At \<open>T\<close> the policy \<^verbatim>\<open>high\<close> keeps the pitch 67
  and the policy \<^verbatim>\<open>low\<close> the pitch 60. The policy \<^verbatim>\<open>first\<close> keeps the note that comes first in
  the order by \<^verbatim>\<open>(start_tick, end_tick, note)\<close>: the one that ends first, and the lower pitch
  among notes that end together. It is the pitch 60 when that note ends no later than the
  other two.
\<close>

theorem chord_policy_winner:
  assumes len: "length (filter (\<lambda>n. channel n = chan \<and> start_tick n = T) nts) = 3"
    and set: "set (filter (\<lambda>n. channel n = chan \<and> start_tick n = T) nts) = {a, b, c}"
    and pitches: "pitch a = 60" "pitch b = 64" "pitch c = 67"
  shows "map_of (select_monophonic_onsets nts chan ''high'') T = Some c \<and>
         map_of (select_monophonic_onsets nts chan ''low'') T = Some a \<and>
         map_of (select_monophonic_onsets nts chan ''first'') T =
           Some (if NoteEvent.end_tick a \<le> NoteEvent.end_tick b \<and>
                    NoteEvent.end_tick a \<le> NoteEvent.end_tick c then a
                 else if NoteEvent.end_tick b \<le> NoteEvent.end_tick c then b else c)"
proof -
  define key :: "NoteEvent \<Rightarrow> int \<times> int \<times> int"
    where "key = (\<lambda>n. (start_tick n, NoteEvent.end_tick n, pitch n))"
  define ys where "ys = sort_key key (filter (\<lambda>n. channel n = chan \<and> start_tick n = T) nts)"
  have ys_set: "set ys = {a, b, c}"
    using set by (simp add: ys_def)
  have ys_len: "length ys = 3"
    using len by (simp add: ys_def)
  have ys_sorted: "sorted (map key ys)"
    by (simp add: ys_def)
  have at: "\<forall>n\<in>set ys. channel n = chan \<and> start_tick n = T"
    by (auto simp: ys_def)
  from ys_len obtain y ys' where ys: "ys = y # ys'"
    by (cases ys) auto
  have y: "channel y = chan \<and> start_tick y = T" and rest: "\<forall>n\<in>set ys'. channel n = chan \<and> start_tick n = T"
    using at by (auto simp: ys)
  have abc: "channel a = chan \<and> start_tick a = T" "channel b = chan \<and> start_tick b = T"
    "channel c = chan \<and> start_tick c = T"
    using at ys_set by auto
  have sel: "map_of (select_monophonic_onsets nts chan pol) T =
             map_of (fold (onset_step chan pol) ys' (onset_step chan pol y [])) T" for pol
    by (simp add: select_at_tick ys_def[symmetric] key_def[symmetric] ys)
  have high: "map_of (select_monophonic_onsets nts chan ''high'') T = Some c"
  proof -
    from high_keeps_highest[OF rest first_step[OF y]]
    obtain m where m: "map_of (fold (onset_step chan ''high'') ys' (onset_step chan ''high'' y [])) T = Some m"
      and "m = y \<or> m \<in> set ys'" and "pitch y \<le> pitch m" and "\<forall>z\<in>set ys'. pitch z \<le> pitch m"
      by blast
    then have "m \<in> {a, b, c}" and "\<forall>z\<in>{a, b, c}. pitch z \<le> pitch m"
      using ys_set by (auto simp: ys)
    then have "m = c"
      using pitches by auto
    with m show ?thesis by (simp add: sel)
  qed
  have low: "map_of (select_monophonic_onsets nts chan ''low'') T = Some a"
  proof -
    from low_keeps_lowest[OF rest first_step[OF y]]
    obtain m where m: "map_of (fold (onset_step chan ''low'') ys' (onset_step chan ''low'' y [])) T = Some m"
      and "m = y \<or> m \<in> set ys'" and "pitch m \<le> pitch y" and "\<forall>z\<in>set ys'. pitch m \<le> pitch z"
      by blast
    then have "m \<in> {a, b, c}" and "\<forall>z\<in>{a, b, c}. pitch m \<le> pitch z"
      using ys_set by (auto simp: ys)
    then have "m = a"
      using pitches by auto
    with m show ?thesis by (simp add: sel)
  qed
  have first: "map_of (select_monophonic_onsets nts chan ''first'') T = Some y"
    using first_keeps_first[OF rest first_step[OF y]] by (simp add: sel)
  have least: "\<forall>z\<in>{a, b, c}. key y \<le> key z"
    using ys_sorted ys_set by (auto simp: ys)
  have "y \<in> {a, b, c}"
    using ys_set by (auto simp: ys)
  then have "y = (if NoteEvent.end_tick a \<le> NoteEvent.end_tick b \<and>
                    NoteEvent.end_tick a \<le> NoteEvent.end_tick c then a
                 else if NoteEvent.end_tick b \<le> NoteEvent.end_tick c then b else c)"
    using least abc pitches by (auto simp: key_def)
  with high low first show ?thesis
    by simp
qed

theorem chord_policy_winner_witness:
  "map_option pitch (map_of (select_monophonic_onsets chord_notes 0 ''high'') 0) = Some 67 \<and>
   map_option pitch (map_of (select_monophonic_onsets chord_notes 0 ''low'') 0) = Some 60 \<and>
   map_option pitch (map_of (select_monophonic_onsets chord_notes 0 ''first'') 0) = Some 64 \<and>
   map_option pitch (map_of (select_monophonic_onsets (rev chord_notes) 0 ''first'') 0) = Some 64"
proof -
  have l: "length (filter (\<lambda>n. channel n = 0 \<and> start_tick n = 0) chord_notes) = 3"
    "length (filter (\<lambda>n. channel n = 0 \<and> start_tick n = 0) (rev chord_notes)) = 3"
    by (simp_all add: chord_notes_def)
  have s: "set (filter (\<lambda>n. channel n = 0 \<and> start_tick n = 0) chord_notes) =
             {chord_notes ! 0, chord_notes ! 1, chord_notes ! 2}"
    "set (filter (\<lambda>n. channel n = 0 \<and> start_tick n = 0) (rev chord_notes)) =
             {chord_notes ! 0, chord_notes ! 1, chord_notes ! 2}"
    by (auto simp: chord_notes_def)
  have p: "pitch (chord_notes ! 0) = 60" "pitch (chord_notes ! 1) = 64" "pitch (chord_notes ! 2) = 67"
    by (simp_all add: chord_notes_def)
  from chord_policy_winner[OF l(1) s(1) p] chord_policy_winner[OF l(2) s(2) p]
  show ?thesis
    by (simp add: chord_notes_def)
qed

text \<open>With the pitch 64 ending before the other two, the policy \<^verbatim>\<open>first\<close> keeps the pitch 64, not
  the pitch 60 of C6.\<close>

theorem first_seen_counterexample:
  "map_option pitch (map_of (select_monophonic_onsets chord_notes 0 ''first'') 0) = Some 64 \<and>
   map_option pitch (map_of (select_monophonic_onsets chord_notes 0 ''first'') 0) \<noteq> Some 60"
  by code_simp

end
